theory Spec2Isabelle
  imports Main "HOL-Library.Word" "HOL-Library.Multiset"
begin

section \<open>Data model of the GPU paste kernel (paste\_gpu.h)\<close>

text \<open>
  C++ \<open>int\<close> and \<open>int64_t\<close> values are modelled as unbounded \<open>int\<close>: signed overflow
  is undefined in C++, so every statement below is read on inputs whose products stay in
  range. \<open>ivec<2>\<close> is a pair; element \<open>[0]\<close> is \<open>fst\<close>, element \<open>[1]\<close> is \<open>snd\<close>.
  For a block descriptor the source writes \<open>.x\<close> for element 0 and \<open>.y\<close> for element 1.
  A \<open>TensorShape<3>\<close> is a triple of extents (HWC). A data pointer is the number of the
  buffer it points to; \<open>nullptr\<close> is \<open>None\<close>.
\<close>

type_synonym ivec2 = "int \<times> int"
type_synonym TensorShape3 = "int \<times> int \<times> int"

definition ext0 :: "TensorShape3 \<Rightarrow> int" where "ext0 sh = fst sh"
definition ext1 :: "TensorShape3 \<Rightarrow> int" where "ext1 sh = fst (snd sh)"
definition ext2 :: "TensorShape3 \<Rightarrow> int" where "ext2 sh = snd (snd sh)"

record TensorView =
  data :: nat
  shape :: TensorShape3

text \<open>
  The host-side inputs of the packer. Their declarations (paste\_gpu\_input.h) are not
  among the sources; the fields are the ones \<open>CreateSampleDescriptors\<close> reads.
\<close>

record MultiPasteSampleInput =
  cpu_grid_cell_start_idx :: int
  cpu_cell_counts :: ivec2

record GridCellInput =
  input_idx :: int
  cpu_cell_start :: ivec2
  cpu_cell_end :: ivec2
  cpu_in_anchor :: ivec2

record GridCellGPU =
  in_ptr :: "nat option"
  cell_start :: ivec2
  cell_end :: ivec2
  in_anchor :: ivec2
  in_pitch :: ivec2

record SampleDescriptorGPU =
  out_ptr :: "nat option"
  grid_cell_start_idx :: int
  cell_counts :: ivec2
  out_pitch :: ivec2

record BlockDesc =
  sample_idx :: int
  blk_start :: ivec2
  blk_end :: ivec2

datatype error =
  EnforceFailed string
  | AssertFailed
  | OutOfRange
  | UnsupportedInputType
  | UnsupportedOutputType
  | PasteFailed

section \<open>The descriptor packer\<close>

text \<open>
  \<open>CreateSampleDescriptors\<close>, first loop. The descriptor \<open>out_descs[i]\<close> is updated in
  place: \<open>out_pitch[0]\<close> keeps what it held. An index outside \<open>out_descs\<close> or \<open>out\<close> is
  undefined behaviour in the source and the error \<open>OutOfRange\<close> here.
\<close>

fun pack_samples ::
  "nat \<Rightarrow> MultiPasteSampleInput list \<Rightarrow> TensorView list \<Rightarrow> int
     \<Rightarrow> SampleDescriptorGPU list \<Rightarrow> error + SampleDescriptorGPU list" where
  "pack_samples i [] outs channels out_descs = Inr out_descs"
| "pack_samples i (cpu_sample # rest) outs channels out_descs =
     (if length out_descs \<le> i \<or> length outs \<le> i then Inl OutOfRange
      else
        let gpu_sample = out_descs ! i;
            gpu_sample = gpu_sample\<lparr>out_ptr := Some (data (outs ! i))\<rparr>;
            gpu_sample = gpu_sample\<lparr>grid_cell_start_idx := cpu_grid_cell_start_idx cpu_sample\<rparr>;
            gpu_sample = gpu_sample\<lparr>cell_counts := cpu_cell_counts cpu_sample\<rparr>;
            gpu_sample = gpu_sample\<lparr>out_pitch := (fst (out_pitch gpu_sample), ext1 (shape (outs ! i)))\<rparr>;
            gpu_sample = gpu_sample\<lparr>out_pitch := (fst (out_pitch gpu_sample), snd (out_pitch gpu_sample) * channels)\<rparr>
        in pack_samples (i + 1) rest outs channels (out_descs[i := gpu_sample]))"

text \<open>
  Second loop. \<open>in[input_idx]\<close> is read only when \<open>input_idx\<close> is not \<open>-1\<close>; an index
  outside the input list is \<open>OutOfRange\<close>. \<open>in_pitch *= channels\<close> multiplies both
  elements of the vector.
\<close>

definition pack_cell :: "TensorView list \<Rightarrow> int \<Rightarrow> GridCellInput \<Rightarrow> GridCellGPU \<Rightarrow> error + GridCellGPU" where
  "pack_cell ins channels cpu_grid_cell gpu_grid_cell =
     (if input_idx cpu_grid_cell \<noteq> -1
         \<and> (input_idx cpu_grid_cell < 0 \<or> int (length ins) \<le> input_idx cpu_grid_cell)
      then Inl OutOfRange
      else
        let g = gpu_grid_cell\<lparr>in_ptr :=
                  (if input_idx cpu_grid_cell = -1 then None
                   else Some (data (ins ! nat (input_idx cpu_grid_cell))))\<rparr>;
            g = g\<lparr>cell_start := cpu_cell_start cpu_grid_cell\<rparr>;
            g = g\<lparr>cell_end := cpu_cell_end cpu_grid_cell\<rparr>;
            g = g\<lparr>in_anchor := cpu_in_anchor cpu_grid_cell\<rparr>;
            g = g\<lparr>in_pitch := (fst (in_pitch g),
                  (if input_idx cpu_grid_cell = -1 then -1
                   else ext1 (shape (ins ! nat (input_idx cpu_grid_cell)))))\<rparr>;
            g = g\<lparr>cell_start := (fst (cell_start g), snd (cell_start g) * channels)\<rparr>;
            g = g\<lparr>cell_end := (fst (cell_end g), snd (cell_end g) * channels)\<rparr>;
            g = g\<lparr>in_anchor := (fst (in_anchor g), snd (in_anchor g) * channels)\<rparr>;
            g = g\<lparr>in_pitch := (fst (in_pitch g) * channels, snd (in_pitch g) * channels)\<rparr>
        in Inr g)"

fun pack_cells ::
  "nat \<Rightarrow> GridCellInput list \<Rightarrow> TensorView list \<Rightarrow> int
     \<Rightarrow> GridCellGPU list \<Rightarrow> error + GridCellGPU list" where
  "pack_cells i [] ins channels out_grid_cells = Inr out_grid_cells"
| "pack_cells i (cpu_grid_cell # rest) ins channels out_grid_cells =
     (if length out_grid_cells \<le> i then Inl OutOfRange
      else case pack_cell ins channels cpu_grid_cell (out_grid_cells ! i) of
             Inl e \<Rightarrow> Inl e
           | Inr g \<Rightarrow> pack_cells (i + 1) rest ins channels (out_grid_cells[i := g]))"

text \<open>
  The function starts with \<open>assert(out_descs.size() >= in.num_samples())\<close>; a failed
  assertion is the error \<open>AssertFailed\<close>.
\<close>

definition CreateSampleDescriptors ::
  "SampleDescriptorGPU list \<Rightarrow> GridCellGPU list \<Rightarrow> TensorView list \<Rightarrow> TensorView list
     \<Rightarrow> MultiPasteSampleInput list \<Rightarrow> GridCellInput list \<Rightarrow> int
     \<Rightarrow> error + (SampleDescriptorGPU list \<times> GridCellGPU list)" where
  "CreateSampleDescriptors out_descs out_grid_cells outs ins samples grid channels =
     (if \<not> length out_descs \<ge> length ins then Inl AssertFailed
      else case pack_samples 0 samples outs channels out_descs of
             Inl e \<Rightarrow> Inl e
           | Inr descs \<Rightarrow>
               (case pack_cells 0 grid ins channels out_grid_cells of
                  Inl e \<Rightarrow> Inl e
                | Inr cells \<Rightarrow> Inr (descs, cells)))"

section \<open>The pixel compositor\<close>

text \<open>
  One pixel of \<open>PasteKernel\<close> leaves an event: the pixel, the index of the resolved cell
  in \<open>my_grid_cells\<close>, the load from the source buffer (buffer and element offset) if one
  is made, and the store into the canvas (element offset and value). The source buffers
  are a function from buffer and offset to the element there: the kernel holds raw
  pointers and cannot know their bounds. \<open>ConvertSat\<close> is a parameter.
\<close>

record 'o pixel_event =
  ev_y :: int
  ev_x :: int
  ev_cell :: int
  ev_load :: "(nat \<times> int) option"
  ev_offset :: int
  ev_value :: 'o

definition read_cell :: "GridCellGPU list \<Rightarrow> int \<Rightarrow> GridCellGPU option" where
  "read_cell grid_cells k =
     (if 0 \<le> k \<and> k < int (length grid_cells) then Some (grid_cells ! nat k) else None)"

text \<open>
  \<open>my_grid_cells[k]\<close> is \<open>grid_cells[grid_cell_start_idx + k]\<close>. A read outside the
  array is undefined behaviour: the kernel has no result, \<open>None\<close>.
\<close>

definition my_grid_cells :: "GridCellGPU list \<Rightarrow> SampleDescriptorGPU \<Rightarrow> int \<Rightarrow> GridCellGPU option" where
  "my_grid_cells grid_cells sample k = read_cell grid_cells (grid_cell_start_idx sample + k)"

text \<open>
  The three loops \<open>while (v >= my_grid_cells[f(g)].cell_end[d]) g++\<close>: \<open>key g\<close> is the
  value of \<open>my_grid_cells[f(g)].cell_end[d]\<close>. The loop may read past the array
  (\<open>key g = None\<close>) or never exit; both are \<open>None\<close>.
\<close>

partial_function (option) cursor_advance :: "(int \<Rightarrow> int option) \<Rightarrow> int \<Rightarrow> int \<Rightarrow> int option" where
  "cursor_advance key v g =
     (case key g of
        None \<Rightarrow> None
      | Some e \<Rightarrow> if v \<ge> e then cursor_advance key v (g + 1) else Some g)"

declare cursor_advance.simps [code]

text \<open>
  The values of \<open>for (int y = y0; y < e; y += step)\<close>. CUDA launches have a block
  dimension of at least 1; the test \<open>0 < step\<close> only makes the function total.
\<close>

function for_range :: "int \<Rightarrow> int \<Rightarrow> int \<Rightarrow> int list" where
  "for_range y e step = (if y < e \<and> 0 < step then y # for_range (y + step) e step else [])"
  by pat_completeness auto
termination
  by (relation "measure (\<lambda>(y, e, step). nat (e - y))") auto

declare for_range.simps [simp del]

definition paste_pixel ::
  "(nat \<Rightarrow> int \<Rightarrow> 'i) \<Rightarrow> ('i \<Rightarrow> 'o) \<Rightarrow> SampleDescriptorGPU \<Rightarrow> int \<Rightarrow> GridCellGPU
     \<Rightarrow> int \<Rightarrow> int \<Rightarrow> ('o::zero) pixel_event" where
  "paste_pixel mem ConvertSat sample k cell y x =
     (case in_ptr cell of
        None \<Rightarrow>
          \<lparr>ev_y = y, ev_x = x, ev_cell = k, ev_load = None,
           ev_offset = y * snd (out_pitch sample) + x, ev_value = 0\<rparr>
      | Some p \<Rightarrow>
          (let off = (y - fst (cell_start cell) + fst (in_anchor cell)) * snd (in_pitch cell)
                       + (x - snd (cell_start cell) + snd (in_anchor cell))
           in \<lparr>ev_y = y, ev_x = x, ev_cell = k, ev_load = Some (p, off),
                ev_offset = y * snd (out_pitch sample) + x,
                ev_value = ConvertSat (mem p off)\<rparr>))"

text \<open>The inner loop over \<open>x\<close>, with the cursor \<open>grid_x\<close> threaded through.\<close>

fun scan_row ::
  "(nat \<Rightarrow> int \<Rightarrow> 'i) \<Rightarrow> ('i \<Rightarrow> 'o) \<Rightarrow> GridCellGPU list \<Rightarrow> SampleDescriptorGPU
     \<Rightarrow> int \<Rightarrow> int \<Rightarrow> int list \<Rightarrow> int \<Rightarrow> ('o::zero) pixel_event list option" where
  "scan_row mem ConvertSat grid_cells sample y grid_y [] grid_x = Some []"
| "scan_row mem ConvertSat grid_cells sample y grid_y (x # xs) grid_x =
     (case cursor_advance
             (\<lambda>g. map_option (\<lambda>c. snd (cell_end c))
                     (my_grid_cells grid_cells sample (grid_y * snd (cell_counts sample) + g)))
             x grid_x of
        None \<Rightarrow> None
      | Some grid_x' \<Rightarrow>
          (case my_grid_cells grid_cells sample (grid_y * snd (cell_counts sample) + grid_x') of
             None \<Rightarrow> None
           | Some cell \<Rightarrow>
               (case scan_row mem ConvertSat grid_cells sample y grid_y xs grid_x' of
                  None \<Rightarrow> None
                | Some evs \<Rightarrow>
                    Some (paste_pixel mem ConvertSat sample
                            (grid_y * snd (cell_counts sample) + grid_x') cell y x # evs))))"

text \<open>The outer loop over \<open>y\<close>: \<open>grid_y\<close> is threaded through, \<open>grid_x\<close> restarts at \<open>min_grid_x\<close>.\<close>

fun scan_rows ::
  "(nat \<Rightarrow> int \<Rightarrow> 'i) \<Rightarrow> ('i \<Rightarrow> 'o) \<Rightarrow> GridCellGPU list \<Rightarrow> SampleDescriptorGPU
     \<Rightarrow> int list \<Rightarrow> int \<Rightarrow> int list \<Rightarrow> int \<Rightarrow> ('o::zero) pixel_event list option" where
  "scan_rows mem ConvertSat grid_cells sample xs min_grid_x [] grid_y = Some []"
| "scan_rows mem ConvertSat grid_cells sample xs min_grid_x (y # ys) grid_y =
     (case cursor_advance
             (\<lambda>g. map_option (\<lambda>c. fst (cell_end c))
                     (my_grid_cells grid_cells sample (g * snd (cell_counts sample))))
             y grid_y of
        None \<Rightarrow> None
      | Some grid_y' \<Rightarrow>
          (case scan_row mem ConvertSat grid_cells sample y grid_y' xs min_grid_x of
             None \<Rightarrow> None
           | Some evs \<Rightarrow>
               (case scan_rows mem ConvertSat grid_cells sample xs min_grid_x ys grid_y' of
                  None \<Rightarrow> None
                | Some evs' \<Rightarrow> Some (evs @ evs'))))"

text \<open>
  One thread of \<open>PasteKernel\<close>: block \<open>blockIdx\<close>, thread \<open>(tx, ty)\<close> of a block of
  dimension \<open>(bdx, bdy)\<close>. The result is the list of its pixel events in program order.
\<close>

definition read_at :: "'a list \<Rightarrow> int \<Rightarrow> 'a option" where
  "read_at xs k = (if 0 \<le> k \<and> k < int (length xs) then Some (xs ! nat k) else None)"

definition PasteKernel ::
  "(nat \<Rightarrow> int \<Rightarrow> 'i) \<Rightarrow> ('i \<Rightarrow> 'o) \<Rightarrow> SampleDescriptorGPU list \<Rightarrow> GridCellGPU list
     \<Rightarrow> BlockDesc list \<Rightarrow> int \<Rightarrow> int \<times> int \<Rightarrow> int \<times> int \<Rightarrow> ('o::zero) pixel_event list option" where
  "PasteKernel mem ConvertSat samples grid_cells blocks blockIdx threadIdx blockDim =
     (case read_at blocks blockIdx of
        None \<Rightarrow> None
      | Some block \<Rightarrow>
          (case read_at samples (sample_idx block) of
             None \<Rightarrow> None
           | Some sample \<Rightarrow>
               (case cursor_advance
                       (\<lambda>g. map_option (\<lambda>c. snd (cell_end c)) (my_grid_cells grid_cells sample g))
                       (fst threadIdx + fst (blk_start block)) 0 of
                  None \<Rightarrow> None
                | Some min_grid_x \<Rightarrow>
                    scan_rows mem ConvertSat grid_cells sample
                      (for_range (fst threadIdx + fst (blk_start block)) (fst (blk_end block)) (fst blockDim))
                      min_grid_x
                      (for_range (snd threadIdx + snd (blk_start block)) (snd (blk_end block)) (snd blockDim))
                      0)))"

section \<open>PasteGPU: Setup and Run\<close>

text \<open>
  Modelled from the spec: \<open>ScratchpadEstimator\<close> (its header is not among the sources).
  The spec's resource planner "returns a set of named byte requirements" for the packed
  sample descriptors, the packed grid cells and the work blocks: \<open>add<T>(alloc, count)\<close>
  records, for the allocation kind and the element type \<open>T\<close>, \<open>sizeof(T) * count\<close> bytes.
\<close>

datatype AllocType = Host | Pinned | GPU | Unified

datatype scratch_item = SampleDesc | GridCellDesc | BlockDescs

type_synonym ScratchpadEstimator = "(AllocType \<times> scratch_item \<times> nat) list"

definition se_add ::
  "ScratchpadEstimator \<Rightarrow> AllocType \<Rightarrow> scratch_item \<Rightarrow> nat \<Rightarrow> nat \<Rightarrow> ScratchpadEstimator" where
  "se_add se alloc_type item sizeof_T count_T = se @ [(alloc_type, item, sizeof_T * count_T)]"

record KernelRequirements =
  scratch_sizes :: ScratchpadEstimator

text \<open>The sizes of the three descriptor types are parameters of the model.\<close>

record type_sizes =
  sizeof_SampleDesc :: nat
  sizeof_GridCellDesc :: nat
  sizeof_BlockDesc :: nat

text \<open>
  Modelled from the spec: \<open>collapse_dim(out_shape, 1)\<close> (not among the sources) merges
  the column and the channel extent of every sample, the spec's flattened
  (pixel, channel) coordinate.
\<close>

definition collapse_dim :: "TensorShape3 list \<Rightarrow> ivec2 list" where
  "collapse_dim out_shape = map (\<lambda>sh. (ext0 sh, ext1 sh * ext2 sh)) out_shape"

text \<open>
  The members of a \<open>PasteGPU\<close> object. \<open>block_setup\<close> holds the blocks that
  \<open>BlockSetup::SetupBlocks\<close> computed; that function is not among the sources and is a
  parameter of \<open>Setup\<close>.
\<close>

record PasteGPU =
  sample_descriptors :: "SampleDescriptorGPU list"
  grid_cell_descriptors :: "GridCellGPU list"
  block_setup :: "BlockDesc list"

text \<open>\<open>std::vector::resize\<close>: new elements are value-initialised.\<close>

definition resize :: "'a \<Rightarrow> nat \<Rightarrow> 'a list \<Rightarrow> 'a list" where
  "resize dflt n xs = take n xs @ replicate (n - length xs) dflt"

definition empty_SampleDesc :: SampleDescriptorGPU where
  "empty_SampleDesc =
     \<lparr>out_ptr = None, grid_cell_start_idx = 0, cell_counts = (0, 0), out_pitch = (0, 0)\<rparr>"

definition empty_GridCellDesc :: GridCellGPU where
  "empty_GridCellDesc =
     \<lparr>in_ptr = None, cell_start = (0, 0), cell_end = (0, 0), in_anchor = (0, 0), in_pitch = (0, 0)\<rparr>"

text \<open>
  The lambda inside \<open>DALI_ENFORCE\<close>: \<open>ref_nchannels\<close> is the last extent of sample 0
  and the loop returns false at the first sample that differs. Reading sample 0 of an
  empty batch is outside the shape list: \<open>None\<close>.
\<close>

fun channels_loop :: "int \<Rightarrow> TensorShape3 list \<Rightarrow> bool" where
  "channels_loop ref_nchannels [] = True"
| "channels_loop ref_nchannels (sh # rest) =
     (if ext2 sh \<noteq> ref_nchannels then False else channels_loop ref_nchannels rest)"

definition channels_equal :: "TensorShape3 list \<Rightarrow> bool option" where
  "channels_equal in_shape =
     (case in_shape of
        [] \<Rightarrow> None
      | sh0 # _ \<Rightarrow> Some (channels_loop (ext2 sh0) in_shape))"

text \<open>
  \<open>PasteGPU::Setup\<close>. A failed \<open>DALI_ENFORCE\<close> throws: the result is \<open>Inl\<close> and the
  object is not touched. Setup receives the input list (pointers and shapes) and no
  memory: it cannot read or write an element.
\<close>

definition Setup ::
  "(ivec2 list \<Rightarrow> BlockDesc list) \<Rightarrow> type_sizes \<Rightarrow> PasteGPU \<Rightarrow> TensorView list
     \<Rightarrow> MultiPasteSampleInput list \<Rightarrow> GridCellInput list \<Rightarrow> TensorShape3 list
     \<Rightarrow> error + (PasteGPU \<times> KernelRequirements)" where
  "Setup SetupBlocks sz self ins samples grid_cells out_shape =
     (case channels_equal (map shape ins) of
        None \<Rightarrow> Inl OutOfRange
      | Some False \<Rightarrow>
          Inl (EnforceFailed ''Number of channels for every image in batch must be equal'')
      | Some True \<Rightarrow>
          (let se = [];
               flattened_shape = collapse_dim out_shape;
               self = self\<lparr>block_setup := SetupBlocks flattened_shape\<rparr>;
               self = self\<lparr>sample_descriptors :=
                        resize empty_SampleDesc (length samples) (sample_descriptors self)\<rparr>;
               self = self\<lparr>grid_cell_descriptors :=
                        resize empty_GridCellDesc (length grid_cells) (grid_cell_descriptors self)\<rparr>;
               se = se_add se GPU SampleDesc (sizeof_SampleDesc sz) (length samples);
               se = se_add se GPU GridCellDesc (sizeof_GridCellDesc sz) (length grid_cells);
               se = se_add se GPU BlockDescs (sizeof_BlockDesc sz) (length (block_setup self))
           in Inr (self, \<lparr>scratch_sizes = se\<rparr>)))"

text \<open>
  \<open>PasteGPU::Run\<close> packs into the object's two vectors, with the literal \<open>3\<close> as the
  channel count, and launches the kernel on copies of them and of the blocks: thread
  \<open>t\<close> of block \<open>b\<close> then computes \<open>PasteKernel\<close> on these arrays.
\<close>

definition Run ::
  "PasteGPU \<Rightarrow> TensorView list \<Rightarrow> TensorView list \<Rightarrow> MultiPasteSampleInput list
     \<Rightarrow> GridCellInput list \<Rightarrow> error + PasteGPU" where
  "Run self outs ins samples grid =
     (case CreateSampleDescriptors (sample_descriptors self) (grid_cell_descriptors self)
             outs ins samples grid 3 of
        Inl e \<Rightarrow> Inl e
      | Inr (descs, cells) \<Rightarrow>
          Inr (self\<lparr>sample_descriptors := descs, grid_cell_descriptors := cells\<rparr>))"

definition Run_thread ::
  "(nat \<Rightarrow> int \<Rightarrow> 'i) \<Rightarrow> ('i \<Rightarrow> 'o) \<Rightarrow> PasteGPU \<Rightarrow> int \<Rightarrow> int \<times> int \<Rightarrow> int \<times> int
     \<Rightarrow> ('o::zero) pixel_event list option" where
  "Run_thread mem ConvertSat self blockIdx threadIdx blockDim =
     PasteKernel mem ConvertSat (sample_descriptors self) (grid_cell_descriptors self)
       (block_setup self) blockIdx threadIdx blockDim"


section \<open>The MultiPaste operator on the CPU (multipaste.h, multipaste.cc)\<close>

text \<open>
  The type identifiers. The enumeration's declaration is not among the sources, which
  name \<open>DALI_NO_TYPE\<close> and, in both \<open>TYPE_SWITCH\<close> lists, the identifiers of \<open>uint8_t\<close>,
  \<open>int16_t\<close>, \<open>int32_t\<close> and \<open>float\<close>; the other constructors stand for the
  identifiers outside these lists.
\<close>

datatype DALIDataType =
  DALI_NO_TYPE | DALI_UINT8 | DALI_UINT16 | DALI_UINT32 | DALI_UINT64
  | DALI_INT8 | DALI_INT16 | DALI_INT32 | DALI_INT64
  | DALI_FLOAT16 | DALI_FLOAT | DALI_FLOAT64 | DALI_BOOL

definition type_switch_supported :: "DALIDataType \<Rightarrow> bool" where
  "type_switch_supported t \<longleftrightarrow> t = DALI_UINT8 \<or> t = DALI_INT16 \<or> t = DALI_INT32 \<or> t = DALI_FLOAT"

record OutputDesc =
  desc_shape :: "TensorShape3 list"
  desc_type :: DALIDataType

text \<open>\<open>MultiPasteOp::AcquireArguments\<close>: the value it leaves in \<open>output_type_\<close>.\<close>

definition AcquireArguments :: "DALIDataType \<Rightarrow> DALIDataType \<Rightarrow> DALIDataType" where
  "AcquireArguments output_type_arg input_type =
     (if output_type_arg \<noteq> DALI_NO_TYPE then output_type_arg else input_type)"

text \<open>
  The loop of \<open>SetupImpl\<close>; \<open>output_size i j\<close> is \<open>output_size_[i].data[j]\<close>, a per-sample
  argument whose declaration is not among the sources.
\<close>

fun setup_shapes :: "(nat \<Rightarrow> nat \<Rightarrow> int) \<Rightarrow> nat \<Rightarrow> TensorShape3 list \<Rightarrow> TensorShape3 list" where
  "setup_shapes output_size i [] = []"
| "setup_shapes output_size i (sh_i # rest) =
     (output_size i 0, output_size i 1, ext2 sh_i) # setup_shapes output_size (i + 1) rest"

text \<open>
  \<open>MultiPasteCpu::SetupImpl\<close>. The outer \<open>TYPE_SWITCH\<close> is on the input type, the inner
  one on \<open>output_type_\<close>; each fails with \<open>DALI_FAIL\<close> outside its list.
\<close>

definition SetupImpl ::
  "DALIDataType \<Rightarrow> (nat \<Rightarrow> nat \<Rightarrow> int) \<Rightarrow> DALIDataType \<Rightarrow> TensorShape3 list
     \<Rightarrow> error + OutputDesc list" where
  "SetupImpl output_type_arg output_size images_type images_shape =
     (let output_type = AcquireArguments output_type_arg images_type
      in if \<not> type_switch_supported images_type then Inl UnsupportedInputType
         else if \<not> type_switch_supported output_type then Inl UnsupportedOutputType
         else Inr [\<lparr>desc_shape = setup_shapes output_size 0 images_shape,
                    desc_type = output_type\<rparr>])"

text \<open>
  A tensor on the host: its shape (HWC) and its elements. An output element is a word of
  the width of \<open>OutputType\<close>: 8 bits for \<open>uint8_t\<close>, 16 for \<open>int16_t\<close>, 32 for \<open>int32_t\<close>
  and for \<open>float\<close> (its bit pattern); the instance of the width is the branch that
  \<open>TYPE_SWITCH\<close> takes.
\<close>

record 'a TensorCPU =
  cpu_shape :: TensorShape3
  cpu_data :: "'a list"

text \<open>
  \<open>memset(p, 0, n)\<close> on a buffer of words stored little-endian: element \<open>j\<close> holds the
  bytes from \<open>j * sizeof\<close> on. An element below byte \<open>n\<close> becomes 0, an element from byte
  \<open>n\<close> on is kept, and the element that byte \<open>n\<close> cuts loses its low bytes.
\<close>

definition memset_zero :: "'a::len word list \<Rightarrow> nat \<Rightarrow> 'a word list" where
  "memset_zero buf n =
     map (\<lambda>j. let sz = LENGTH('a) div 8; w = buf ! j
               in if (j + 1) * sz \<le> n then 0
                  else if n \<le> j * sz then w
                  else push_bit (8 * (n - j * sz)) (drop_bit (8 * (n - j * sz)) w))
       [0..<length buf]"

text \<open>
  Modelled from the spec: \<open>kernels::PasteCpu::Run\<close> (paste.h is not among the sources).
  A paste iteration "describes one rectangle copy", from the rectangle of shape
  \<open>in_shape\<close> at \<open>in_anchor\<close> of the source to the rectangle at \<open>out_anchor\<close> of the canvas,
  with the saturating conversion; anchors and shapes are (row, column). A rectangle outside
  its image is an error. Element \<open>k\<close> of an HWC buffer is channel \<open>c\<close> of pixel \<open>(y, x)\<close>.
\<close>

definition pixel_of :: "TensorShape3 \<Rightarrow> nat \<Rightarrow> int \<times> int \<times> int" where
  "pixel_of sh k = (int k div (ext1 sh * ext2 sh), (int k div ext2 sh) mod ext1 sh, int k mod ext2 sh)"

definition in_rect :: "ivec2 \<Rightarrow> ivec2 \<Rightarrow> int \<Rightarrow> int \<Rightarrow> bool" where
  "in_rect anchor shp y x \<longleftrightarrow>
     fst anchor \<le> y \<and> y < fst anchor + fst shp \<and> snd anchor \<le> x \<and> x < snd anchor + snd shp"

definition tensor_ok :: "'a TensorCPU \<Rightarrow> bool" where
  "tensor_ok t \<longleftrightarrow>
     0 \<le> ext0 (cpu_shape t) \<and> 0 \<le> ext1 (cpu_shape t) \<and> 0 \<le> ext2 (cpu_shape t)
     \<and> int (length (cpu_data t)) = ext0 (cpu_shape t) * ext1 (cpu_shape t) * ext2 (cpu_shape t)"

definition paste_ok :: "TensorShape3 \<Rightarrow> nat \<Rightarrow> 'i TensorCPU \<Rightarrow> ivec2 \<Rightarrow> ivec2 \<Rightarrow> ivec2 \<Rightarrow> bool" where
  "paste_ok out_sh out_len tvin in_anchor_view in_shape_view out_anchor_view \<longleftrightarrow>
     tensor_ok tvin
     \<and> 0 \<le> ext0 out_sh \<and> 0 \<le> ext1 out_sh \<and> int out_len = ext0 out_sh * ext1 out_sh * ext2 out_sh
     \<and> ext2 (cpu_shape tvin) = ext2 out_sh
     \<and> 0 \<le> fst in_shape_view \<and> 0 \<le> snd in_shape_view
     \<and> 0 \<le> fst in_anchor_view \<and> fst in_anchor_view + fst in_shape_view \<le> ext0 (cpu_shape tvin)
     \<and> 0 \<le> snd in_anchor_view \<and> snd in_anchor_view + snd in_shape_view \<le> ext1 (cpu_shape tvin)
     \<and> 0 \<le> fst out_anchor_view \<and> fst out_anchor_view + fst in_shape_view \<le> ext0 out_sh
     \<and> 0 \<le> snd out_anchor_view \<and> snd out_anchor_view + snd in_shape_view \<le> ext1 out_sh"

definition paste_source :: "TensorShape3 \<Rightarrow> 'i TensorCPU \<Rightarrow> ivec2 \<Rightarrow> ivec2 \<Rightarrow> nat \<Rightarrow> 'i" where
  "paste_source out_sh tvin in_anchor_view out_anchor_view k =
     (case pixel_of out_sh k of
        (y, x, c) \<Rightarrow>
          cpu_data tvin !
            nat (((y - fst out_anchor_view + fst in_anchor_view) * ext1 (cpu_shape tvin)
                  + (x - snd out_anchor_view + snd in_anchor_view)) * ext2 (cpu_shape tvin) + c))"

definition paste_covers :: "TensorShape3 \<Rightarrow> ivec2 \<Rightarrow> ivec2 \<Rightarrow> nat \<Rightarrow> bool" where
  "paste_covers out_sh in_shape_view out_anchor_view k =
     (case pixel_of out_sh k of (y, x, c) \<Rightarrow> in_rect out_anchor_view in_shape_view y x)"

definition PasteCpu_Run ::
  "('i \<Rightarrow> 'o) \<Rightarrow> 'o TensorCPU \<Rightarrow> 'i TensorCPU \<Rightarrow> ivec2 \<Rightarrow> ivec2 \<Rightarrow> ivec2 \<Rightarrow> error + 'o TensorCPU" where
  "PasteCpu_Run ConvertSat tvout tvin in_anchor_view in_shape_view out_anchor_view =
     (if \<not> paste_ok (cpu_shape tvout) (length (cpu_data tvout)) tvin
              in_anchor_view in_shape_view out_anchor_view
      then Inl PasteFailed
      else Inr (tvout\<lparr>cpu_data :=
             map (\<lambda>k. if paste_covers (cpu_shape tvout) in_shape_view out_anchor_view k
                       then ConvertSat (paste_source (cpu_shape tvout) tvin in_anchor_view out_anchor_view k)
                       else cpu_data tvout ! k)
               [0..<length (cpu_data tvout)]\<rparr>))"

text \<open>
  The arguments of one sample \<open>i\<close> of \<open>RunImpl\<close>: \<open>in_idx\<close> is \<open>in_idx_[i].data\<close> (its length
  is \<open>paste_count\<close>), \<open>no_intersections\<close> is \<open>no_intersections_[i]\<close>, and \<open>GetInAnchors\<close>,
  \<open>GetShape\<close> and \<open>GetOutAnchors\<close> are the three getters at sample \<open>i\<close>, functions of the
  iteration (and of the default shape). None of them is declared in the sources.
\<close>

record sample_args =
  in_idx :: "int list"
  no_intersections :: bool
  GetInAnchors :: "nat \<Rightarrow> ivec2"
  GetShape :: "nat \<Rightarrow> ivec2 \<Rightarrow> ivec2"
  GetOutAnchors :: "nat \<Rightarrow> ivec2"

text \<open>
  The body that both lambdas of \<open>RunImpl\<close> run for iteration \<open>iter\<close>. \<open>images[from_sample]\<close>
  outside the batch is undefined behaviour; here the iteration fails like a paste outside
  its image.
\<close>

definition paste_iteration ::
  "('i \<Rightarrow> 'o) \<Rightarrow> 'i TensorCPU list \<Rightarrow> sample_args \<Rightarrow> nat \<Rightarrow> 'o TensorCPU \<Rightarrow> error + 'o TensorCPU" where
  "paste_iteration ConvertSat images args iter tvout =
     (let from_sample = in_idx args ! iter
      in if from_sample < 0 \<or> int (length images) \<le> from_sample then Inl PasteFailed
         else
           let tvin = images ! nat from_sample;
               in_anchor_view = GetInAnchors args iter;
               in_shape_view = GetShape args iter (ext0 (cpu_shape tvin), ext1 (cpu_shape tvin));
               out_anchor_view = GetOutAnchors args iter
           in PasteCpu_Run ConvertSat tvout tvin in_anchor_view in_shape_view out_anchor_view)"

text \<open>
  A work item of the thread pool is the list of iterations it runs in order: one
  iteration each when \<open>no_intersections_[i]\<close> holds, all of them in one item otherwise.
\<close>

definition work_items :: "bool \<Rightarrow> nat \<Rightarrow> nat list list" where
  "work_items no_isect paste_count =
     (if no_isect then map (\<lambda>iter. [iter]) [0..<paste_count] else [[0..<paste_count]])"

fun run_iterations ::
  "(nat \<Rightarrow> 'c \<Rightarrow> error + 'c) \<Rightarrow> nat list \<Rightarrow> 'c \<Rightarrow> error + 'c" where
  "run_iterations f [] tvout = Inr tvout"
| "run_iterations f (iter # rest) tvout =
     (case f iter tvout of Inl e \<Rightarrow> Inl e | Inr tvout' \<Rightarrow> run_iterations f rest tvout')"

fun run_work ::
  "(nat \<Rightarrow> 'c \<Rightarrow> error + 'c) \<Rightarrow> nat list list \<Rightarrow> 'c \<Rightarrow> error + 'c" where
  "run_work f [] tvout = Inr tvout"
| "run_work f (w # ws) tvout =
     (case run_iterations f w tvout of Inl e \<Rightarrow> Inl e | Inr tvout' \<Rightarrow> run_work f ws tvout')"

text \<open>
  \<open>MultiPasteCpu::RunImpl\<close> for sample \<open>i\<close>. The main thread zeroes the canvas with
  \<open>memset\<close>, whose length is the number of elements, and queues the work items;
  \<open>tp.RunAll()\<close> then runs them. The work items of other samples write other canvases.
  \<open>dispatch\<close> is the order in which the pool runs this sample's items: each item runs to
  completion, and the pool runs them in an order of its choice.
\<close>

definition RunImpl_sample ::
  "('i \<Rightarrow> 'a::len word) \<Rightarrow> (nat list list \<Rightarrow> nat list list) \<Rightarrow> 'i TensorCPU list
     \<Rightarrow> sample_args \<Rightarrow> 'a word TensorCPU \<Rightarrow> error + 'a word TensorCPU" where
  "RunImpl_sample ConvertSat dispatch images args output_i =
     (let paste_count = length (in_idx args);
          n = ext0 (cpu_shape output_i) * ext1 (cpu_shape output_i) * ext2 (cpu_shape output_i)
      in if n < 0 \<or> int (length (cpu_data output_i) * (LENGTH('a) div 8)) < n then Inl OutOfRange
         else
           let to_zero = output_i\<lparr>cpu_data := memset_zero (cpu_data output_i) (nat n)\<rparr>
           in run_work (paste_iteration ConvertSat images args)
                (dispatch (work_items (no_intersections args) paste_count)) to_zero)"


section \<open>The grid invariant and the naive search\<close>

text \<open>
  The cell in row \<open>r\<close> and column \<open>c\<close> of a sample's grid, stored row-major from
  \<open>grid_cell_start_idx\<close>; \<open>cell_counts[1]\<close> is the number of columns.
\<close>

definition grid_cell :: "GridCellGPU list \<Rightarrow> SampleDescriptorGPU \<Rightarrow> nat \<Rightarrow> nat \<Rightarrow> GridCellGPU" where
  "grid_cell grid_cells sample r c =
     grid_cells ! nat (grid_cell_start_idx sample + (int r * snd (cell_counts sample) + int c))"

text \<open>
  The invariant of the spec, in its words: the cells form a dense grid on a canvas of
  \<open>H\<close> rows and \<open>W\<close> flattened columns. The grid lies inside the cell array; the
  boundaries of the rows (read in column 0) and of the columns (read in row 0) start at 0,
  never decrease, end at \<open>H\<close> and \<open>W\<close>, and each row or column starts where the one
  before it ends; every cell spans its row's and its column's interval.
\<close>

definition grid_bounds_ok :: "GridCellGPU list \<Rightarrow> SampleDescriptorGPU \<Rightarrow> bool" where
  "grid_bounds_ok grid_cells sample \<longleftrightarrow>
     0 \<le> grid_cell_start_idx sample \<and> 0 < fst (cell_counts sample) \<and> 0 < snd (cell_counts sample)
     \<and> nat (grid_cell_start_idx sample)
          + nat (fst (cell_counts sample)) * nat (snd (cell_counts sample)) \<le> length grid_cells"

definition grid_rows_ok :: "GridCellGPU list \<Rightarrow> SampleDescriptorGPU \<Rightarrow> int \<Rightarrow> bool" where
  "grid_rows_ok grid_cells sample H \<longleftrightarrow>
     fst (cell_start (grid_cell grid_cells sample 0 0)) = 0
     \<and> fst (cell_end (grid_cell grid_cells sample (nat (fst (cell_counts sample)) - 1) 0)) = H
     \<and> (\<forall>r \<in> {0..<nat (fst (cell_counts sample))}.
           fst (cell_start (grid_cell grid_cells sample r 0)) \<le> fst (cell_end (grid_cell grid_cells sample r 0))
         \<and> (Suc r < nat (fst (cell_counts sample)) \<longrightarrow>
              fst (cell_start (grid_cell grid_cells sample (Suc r) 0))
                = fst (cell_end (grid_cell grid_cells sample r 0))))"

definition grid_cols_ok :: "GridCellGPU list \<Rightarrow> SampleDescriptorGPU \<Rightarrow> int \<Rightarrow> bool" where
  "grid_cols_ok grid_cells sample W \<longleftrightarrow>
     snd (cell_start (grid_cell grid_cells sample 0 0)) = 0
     \<and> snd (cell_end (grid_cell grid_cells sample 0 (nat (snd (cell_counts sample)) - 1))) = W
     \<and> (\<forall>c \<in> {0..<nat (snd (cell_counts sample))}.
           snd (cell_start (grid_cell grid_cells sample 0 c)) \<le> snd (cell_end (grid_cell grid_cells sample 0 c))
         \<and> (Suc c < nat (snd (cell_counts sample)) \<longrightarrow>
              snd (cell_start (grid_cell grid_cells sample 0 (Suc c)))
                = snd (cell_end (grid_cell grid_cells sample 0 c))))"

definition grid_aligned :: "GridCellGPU list \<Rightarrow> SampleDescriptorGPU \<Rightarrow> bool" where
  "grid_aligned grid_cells sample \<longleftrightarrow>
     (\<forall>r \<in> {0..<nat (fst (cell_counts sample))}. \<forall>c \<in> {0..<nat (snd (cell_counts sample))}.
         fst (cell_start (grid_cell grid_cells sample r c)) = fst (cell_start (grid_cell grid_cells sample r 0))
       \<and> fst (cell_end (grid_cell grid_cells sample r c)) = fst (cell_end (grid_cell grid_cells sample r 0))
       \<and> snd (cell_start (grid_cell grid_cells sample r c)) = snd (cell_start (grid_cell grid_cells sample 0 c))
       \<and> snd (cell_end (grid_cell grid_cells sample r c)) = snd (cell_end (grid_cell grid_cells sample 0 c)))"

definition grid_ok :: "GridCellGPU list \<Rightarrow> SampleDescriptorGPU \<Rightarrow> int \<Rightarrow> int \<Rightarrow> bool" where
  "grid_ok grid_cells sample H W \<longleftrightarrow>
     grid_bounds_ok grid_cells sample \<and> grid_rows_ok grid_cells sample H
     \<and> grid_cols_ok grid_cells sample W \<and> grid_aligned grid_cells sample"

text \<open>
  The naive search of the spec: all indices of the sample's cells whose half-open
  rectangle \<open>[cell_start, cell_end)\<close> holds the pixel, and the scan that runs it at every
  pixel. The cell is unique when the list has one element.
\<close>

definition cell_contains :: "GridCellGPU \<Rightarrow> int \<Rightarrow> int \<Rightarrow> bool" where
  "cell_contains c y x \<longleftrightarrow>
     fst (cell_start c) \<le> y \<and> y < fst (cell_end c) \<and> snd (cell_start c) \<le> x \<and> x < snd (cell_end c)"

definition naive_search :: "GridCellGPU list \<Rightarrow> SampleDescriptorGPU \<Rightarrow> int \<Rightarrow> int \<Rightarrow> int list" where
  "naive_search grid_cells sample y x =
     filter (\<lambda>k. case my_grid_cells grid_cells sample k of
                    None \<Rightarrow> False
                  | Some c \<Rightarrow> cell_contains c y x)
       (map int [0..<nat (fst (cell_counts sample)) * nat (snd (cell_counts sample))])"

definition naive_scan ::
  "GridCellGPU list \<Rightarrow> SampleDescriptorGPU \<Rightarrow> int list \<Rightarrow> int list \<Rightarrow> (int \<times> int \<times> int list) list" where
  "naive_scan grid_cells sample ys xs =
     concat (map (\<lambda>y. map (\<lambda>x. (y, x, naive_search grid_cells sample y x)) xs) ys)"

section \<open>Definitions used in the proofs\<close>

text \<open>
  One axis of a grid: \<open>n\<close> intervals \<open>[lo k, hi k)\<close> that tile \<open>[0, L)\<close> in order, and
  the interval a coordinate falls in.
\<close>

definition axis_ok :: "(nat \<Rightarrow> int) \<Rightarrow> (nat \<Rightarrow> int) \<Rightarrow> nat \<Rightarrow> int \<Rightarrow> bool" where
  "axis_ok lo hi n L \<longleftrightarrow>
     0 < n \<and> lo 0 = 0 \<and> hi (n - 1) = L \<and> (\<forall>k<n. lo k \<le> hi k) \<and> (\<forall>k. Suc k < n \<longrightarrow> lo (Suc k) = hi k)"

definition axis_of :: "(nat \<Rightarrow> int) \<Rightarrow> int \<Rightarrow> nat" where
  "axis_of hi v = (LEAST k. v < hi k)"

text \<open>The boundaries of row \<open>r\<close> and of column \<open>c\<close>, and the event of the cell that holds a pixel.\<close>

definition row_lo :: "GridCellGPU list \<Rightarrow> SampleDescriptorGPU \<Rightarrow> nat \<Rightarrow> int" where
  "row_lo gc s r = fst (cell_start (grid_cell gc s r 0))"
definition row_hi :: "GridCellGPU list \<Rightarrow> SampleDescriptorGPU \<Rightarrow> nat \<Rightarrow> int" where
  "row_hi gc s r = fst (cell_end (grid_cell gc s r 0))"
definition col_lo :: "GridCellGPU list \<Rightarrow> SampleDescriptorGPU \<Rightarrow> nat \<Rightarrow> int" where
  "col_lo gc s c = snd (cell_start (grid_cell gc s 0 c))"
definition col_hi :: "GridCellGPU list \<Rightarrow> SampleDescriptorGPU \<Rightarrow> nat \<Rightarrow> int" where
  "col_hi gc s c = snd (cell_end (grid_cell gc s 0 c))"

definition resolved_event ::
  "(nat \<Rightarrow> int \<Rightarrow> 'i) \<Rightarrow> ('i \<Rightarrow> 'o) \<Rightarrow> GridCellGPU list \<Rightarrow> SampleDescriptorGPU \<Rightarrow> int \<Rightarrow> int
     \<Rightarrow> ('o::zero) pixel_event" where
  "resolved_event mem cv gc s y x =
     paste_pixel mem cv s
       (int (axis_of (row_hi gc s) y) * snd (cell_counts s) + int (axis_of (col_hi gc s) x))
       (grid_cell gc s (axis_of (row_hi gc s) y) (axis_of (col_hi gc s) x)) y x"

text \<open>An event is the store that \<open>paste_pixel\<close> makes for the cell it names.\<close>

definition event_of_cell ::
  "(nat \<Rightarrow> int \<Rightarrow> 'i) \<Rightarrow> ('i \<Rightarrow> 'o) \<Rightarrow> GridCellGPU list \<Rightarrow> SampleDescriptorGPU
     \<Rightarrow> ('o::zero) pixel_event \<Rightarrow> bool" where
  "event_of_cell mem cv gc s e \<longleftrightarrow>
     (\<exists>cell. my_grid_cells gc s (ev_cell e) = Some cell
        \<and> e = paste_pixel mem cv s (ev_cell e) cell (ev_y e) (ev_x e))"


section \<open>The iterations of a sample and their destination rectangles\<close>

text \<open>
  The paste of iteration \<open>iter\<close> of a sample, as \<open>RunImpl\<close> passes it to the kernel: the
  shape of its rectangle, whether it can be executed on a canvas of a given shape and
  length, whether its destination rectangle covers element \<open>k\<close> of the canvas, and the
  value it stores there: the conversion of its source element.
\<close>

definition iter_shape :: "'i TensorCPU list \<Rightarrow> sample_args \<Rightarrow> nat \<Rightarrow> ivec2" where
  "iter_shape images args iter =
     GetShape args iter
       (ext0 (cpu_shape (images ! nat (in_idx args ! iter))),
        ext1 (cpu_shape (images ! nat (in_idx args ! iter))))"

definition iter_ok :: "'i TensorCPU list \<Rightarrow> sample_args \<Rightarrow> TensorShape3 \<Rightarrow> nat \<Rightarrow> nat \<Rightarrow> bool" where
  "iter_ok images args out_sh out_len iter \<longleftrightarrow>
     0 \<le> in_idx args ! iter \<and> in_idx args ! iter < int (length images)
     \<and> paste_ok out_sh out_len (images ! nat (in_idx args ! iter))
          (GetInAnchors args iter) (iter_shape images args iter) (GetOutAnchors args iter)"

definition iter_covers :: "'i TensorCPU list \<Rightarrow> sample_args \<Rightarrow> TensorShape3 \<Rightarrow> nat \<Rightarrow> nat \<Rightarrow> bool" where
  "iter_covers images args out_sh iter k =
     paste_covers out_sh (iter_shape images args iter) (GetOutAnchors args iter) k"

definition iter_value ::
  "('i \<Rightarrow> 'o) \<Rightarrow> 'i TensorCPU list \<Rightarrow> sample_args \<Rightarrow> TensorShape3 \<Rightarrow> nat \<Rightarrow> nat \<Rightarrow> 'o" where
  "iter_value ConvertSat images args out_sh iter k =
     ConvertSat (paste_source out_sh (images ! nat (in_idx args ! iter))
                   (GetInAnchors args iter) (GetOutAnchors args iter) k)"

text \<open>
  Two rectangles, each an anchor and a shape, overlap when they share a pixel; the
  destination rectangles of a sample are pairwise disjoint when no two iterations overlap.
\<close>

definition rects_overlap :: "ivec2 \<Rightarrow> ivec2 \<Rightarrow> ivec2 \<Rightarrow> ivec2 \<Rightarrow> bool" where
  "rects_overlap a1 s1 a2 s2 \<longleftrightarrow>
     max (fst a1) (fst a2) < min (fst a1 + fst s1) (fst a2 + fst s2)
     \<and> max (snd a1) (snd a2) < min (snd a1 + snd s1) (snd a2 + snd s2)"

definition pairwise_disjoint :: "'i TensorCPU list \<Rightarrow> sample_args \<Rightarrow> bool" where
  "pairwise_disjoint images args \<longleftrightarrow>
     (\<forall>a \<in> {0..<length (in_idx args)}. \<forall>b \<in> {0..<length (in_idx args)}.
        a \<noteq> b \<longrightarrow>
          \<not> rects_overlap (GetOutAnchors args a) (iter_shape images args a)
                          (GetOutAnchors args b) (iter_shape images args b))"

text \<open>
  For the proofs: element \<open>k\<close> after the iterations \<open>its\<close> have run in order holds the value of the
  last of them that covers it, or its old value.
\<close>

definition painted :: "(nat \<Rightarrow> nat \<Rightarrow> bool) \<Rightarrow> (nat \<Rightarrow> nat \<Rightarrow> 'o) \<Rightarrow> nat list \<Rightarrow> 'o list \<Rightarrow> nat \<Rightarrow> 'o" where
  "painted cov val its old k =
     (case find (\<lambda>it. cov it k) (rev its) of None \<Rightarrow> old ! k | Some it \<Rightarrow> val it k)"


section \<open>Concrete inputs\<close>

definition w_cells :: "GridCellGPU list" where
  "w_cells =
     [\<lparr>in_ptr = Some 0, cell_start = (0, 0), cell_end = (2, 3), in_anchor = (0, 0), in_pitch = (0, 6)\<rparr>,
      \<lparr>in_ptr = None, cell_start = (0, 3), cell_end = (2, 6), in_anchor = (0, 0), in_pitch = (-3, -3)\<rparr>,
      \<lparr>in_ptr = None, cell_start = (2, 0), cell_end = (3, 3), in_anchor = (0, 0), in_pitch = (-3, -3)\<rparr>,
      \<lparr>in_ptr = Some 1, cell_start = (2, 3), cell_end = (3, 6), in_anchor = (1, 3), in_pitch = (0, 6)\<rparr>]"

definition w_sample :: SampleDescriptorGPU where
  "w_sample = \<lparr>out_ptr = Some 0, grid_cell_start_idx = 0, cell_counts = (2, 2), out_pitch = (0, 6)\<rparr>"

definition w_block :: BlockDesc where
  "w_block = \<lparr>sample_idx = 0, blk_start = (0, 0), blk_end = (6, 3)\<rparr>"

definition w_mem :: "nat \<Rightarrow> int \<Rightarrow> int" where
  "w_mem b k = 100 * int b + k"

definition w_events :: "int pixel_event list" where
  "w_events =
     [\<lparr>ev_y = 0, ev_x = 1, ev_cell = 0, ev_load = Some (0, 1), ev_offset = 1, ev_value = 1\<rparr>,
      \<lparr>ev_y = 0, ev_x = 3, ev_cell = 1, ev_load = None, ev_offset = 3, ev_value = 0\<rparr>,
      \<lparr>ev_y = 0, ev_x = 5, ev_cell = 1, ev_load = None, ev_offset = 5, ev_value = 0\<rparr>,
      \<lparr>ev_y = 2, ev_x = 1, ev_cell = 2, ev_load = None, ev_offset = 13, ev_value = 0\<rparr>,
      \<lparr>ev_y = 2, ev_x = 3, ev_cell = 3, ev_load = Some (1, 9), ev_offset = 15, ev_value = 109\<rparr>,
      \<lparr>ev_y = 2, ev_x = 5, ev_cell = 3, ev_load = Some (1, 11), ev_offset = 17, ev_value = 111\<rparr>]"

definition b_self0 :: PasteGPU where
  "b_self0 = \<lparr>sample_descriptors = [], grid_cell_descriptors = [], block_setup = []\<rparr>"

definition b_sz :: type_sizes where
  "b_sz = \<lparr>sizeof_SampleDesc = 32, sizeof_GridCellDesc = 48, sizeof_BlockDesc = 20\<rparr>"

definition b_blocks :: "ivec2 list \<Rightarrow> BlockDesc list" where
  "b_blocks shs =
     map (\<lambda>(i, sh). \<lparr>sample_idx = int i, blk_start = (0, 0), blk_end = (snd sh, fst sh)\<rparr>)
       (enumerate 0 shs)"

definition b_outs :: "TensorView list" where
  "b_outs = [\<lparr>data = 0, shape = (2, 2, 1)\<rparr>]"

definition b_ins :: "TensorView list" where
  "b_ins = [\<lparr>data = 1, shape = (2, 2, 1)\<rparr>]"

definition b_samples :: "MultiPasteSampleInput list" where
  "b_samples = [\<lparr>cpu_grid_cell_start_idx = 0, cpu_cell_counts = (1, 2)\<rparr>]"

definition b_grid :: "GridCellInput list" where
  "b_grid =
     [\<lparr>input_idx = 0, cpu_cell_start = (0, 0), cpu_cell_end = (2, 1), cpu_in_anchor = (0, 0)\<rparr>,
      \<lparr>input_idx = -1, cpu_cell_start = (0, 1), cpu_cell_end = (2, 2), cpu_in_anchor = (0, 0)\<rparr>]"

definition b_self :: PasteGPU where
  "b_self =
     \<lparr>sample_descriptors = [empty_SampleDesc],
      grid_cell_descriptors = [empty_GridCellDesc, empty_GridCellDesc],
      block_setup = [\<lparr>sample_idx = 0, blk_start = (0, 0), blk_end = (2, 2)\<rparr>]\<rparr>"

definition b_descs :: "SampleDescriptorGPU list" where
  "b_descs = [\<lparr>out_ptr = Some 0, grid_cell_start_idx = 0, cell_counts = (1, 2), out_pitch = (0, 6)\<rparr>]"

definition b_cells :: "GridCellGPU list" where
  "b_cells =
     [\<lparr>in_ptr = Some 1, cell_start = (0, 0), cell_end = (2, 3), in_anchor = (0, 0), in_pitch = (0, 6)\<rparr>,
      \<lparr>in_ptr = None, cell_start = (0, 3), cell_end = (2, 6), in_anchor = (0, 0), in_pitch = (0, -3)\<rparr>]"

definition b_block :: BlockDesc where
  "b_block = \<lparr>sample_idx = 0, blk_start = (0, 0), blk_end = (6, 1)\<rparr>"

definition b_event :: "int pixel_event" where
  "b_event = \<lparr>ev_y = 0, ev_x = 4, ev_cell = 1, ev_load = None, ev_offset = 4, ev_value = 0\<rparr>"

definition m_ins :: "TensorView list" where
  "m_ins = [\<lparr>data = 0, shape = (2, 2, 1)\<rparr>, \<lparr>data = 1, shape = (4, 4, 3)\<rparr>]"

definition c5_images :: "int TensorCPU list" where
  "c5_images =
     [\<lparr>cpu_shape = (2, 2, 1), cpu_data = [10, 11, 12, 13]\<rparr>,
      \<lparr>cpu_shape = (1, 1, 1), cpu_data = [20]\<rparr>,
      \<lparr>cpu_shape = (1, 2, 1), cpu_data = [30, 31]\<rparr>]"

definition c5_args :: sample_args where
  "c5_args =
     \<lparr>in_idx = [0, 1, 2], no_intersections = False, GetInAnchors = (\<lambda>iter. (0, 0)),
      GetShape = (\<lambda>iter dflt. dflt), GetOutAnchors = (\<lambda>iter. (0, 0))\<rparr>"

definition c5_canvas :: "8 word TensorCPU" where
  "c5_canvas = \<lparr>cpu_shape = (2, 3, 1), cpu_data = [9, 9, 9, 9, 9, 9]\<rparr>"

definition c5_result :: "8 word TensorCPU" where
  "c5_result = \<lparr>cpu_shape = (2, 3, 1), cpu_data = [30, 31, 0, 12, 13, 0]\<rparr>"

definition c6_args :: sample_args where
  "c6_args =
     \<lparr>in_idx = [1, 2], no_intersections = True, GetInAnchors = (\<lambda>iter. (0, 0)),
      GetShape = (\<lambda>iter dflt. dflt), GetOutAnchors = (\<lambda>iter. if iter = 0 then (0, 2) else (1, 0))\<rparr>"

definition c3_args :: sample_args where
  "c3_args =
     \<lparr>in_idx = [], no_intersections = True, GetInAnchors = (\<lambda>iter. (0, 0)),
      GetShape = (\<lambda>iter dflt. dflt), GetOutAnchors = (\<lambda>iter. (0, 0))\<rparr>"

definition c3_canvas :: "32 word TensorCPU" where
  "c3_canvas = \<lparr>cpu_shape = (2, 2, 1), cpu_data = [7, 7, 7, 7]\<rparr>"

definition c10_output_size :: "nat \<Rightarrow> nat \<Rightarrow> int" where
  "c10_output_size i j = (if j = 0 then 8 else 6)"


section \<open>The cursor resolves the cell of a naive search\<close>

lemma axis_hi_step: "axis_ok lo hi n L \<Longrightarrow> Suc k < n \<Longrightarrow> hi k \<le> hi (Suc k)"
  unfolding axis_ok_def by (metis Suc_lessD)

lemma axis_hi_mono: "axis_ok lo hi n L \<Longrightarrow> j \<le> k \<Longrightarrow> k < n \<Longrightarrow> hi j \<le> hi k"
proof (induction k)
  case 0
  then show ?case by simp
next
  case (Suc k)
  show ?case
  proof (cases "j = Suc k")
    case True
    then show ?thesis by simp
  next
    case False
    with Suc.prems have "j \<le> k" "k < n" by simp_all
    with Suc have "hi j \<le> hi k" by simp
    moreover have "hi k \<le> hi (Suc k)" using axis_hi_step Suc.prems by blast
    ultimately show ?thesis by simp
  qed
qed

lemma axis_of_props:
  assumes "axis_ok lo hi n L" "v < L"
  shows "axis_of hi v < n" "v < hi (axis_of hi v)" "\<forall>k < axis_of hi v. hi k \<le> v"
proof -
  from assms have top: "v < hi (n - 1)" "0 < n" by (simp_all add: axis_ok_def)
  show "v < hi (axis_of hi v)" unfolding axis_of_def using top(1) by (rule LeastI)
  have "axis_of hi v \<le> n - 1" unfolding axis_of_def using top(1) by (rule Least_le)
  with top(2) show "axis_of hi v < n" by simp
  show "\<forall>k < axis_of hi v. hi k \<le> v"
  proof (intro allI impI)
    fix k assume "k < axis_of hi v"
    then have "\<not> v < hi k" unfolding axis_of_def by (rule not_less_Least)
    then show "hi k \<le> v" by simp
  qed
qed

lemma axis_of_lo:
  assumes "axis_ok lo hi n L" "0 \<le> v" "v < L"
  shows "lo (axis_of hi v) \<le> v"
proof (cases "axis_of hi v")
  case 0
  with assms show ?thesis by (simp add: axis_ok_def)
next
  case (Suc k)
  have "Suc k < n" using axis_of_props(1)[OF assms(1,3)] Suc by simp
  then have "lo (Suc k) = hi k" using assms(1) by (simp add: axis_ok_def)
  moreover have "hi k \<le> v" using axis_of_props(3)[OF assms(1,3)] Suc by simp
  ultimately show ?thesis using Suc by simp
qed

lemma axis_of_unique:
  assumes "axis_ok lo hi n L" "k < n" "lo k \<le> v" "v < hi k"
  shows "k = axis_of hi v"
proof -
  have le: "axis_of hi v \<le> k" unfolding axis_of_def using assms(4) by (rule Least_le)
  have here: "v < hi (axis_of hi v)" unfolding axis_of_def using assms(4) by (rule LeastI)
  show ?thesis
  proof (rule ccontr)
    assume "k \<noteq> axis_of hi v"
    with le have lt: "axis_of hi v < k" by simp
    then obtain j where j: "k = Suc j" by (cases k) simp_all
    with assms(1,2) have "lo k = hi j" by (simp add: axis_ok_def)
    moreover have "hi (axis_of hi v) \<le> hi j"
      using axis_hi_mono[OF assms(1), of "axis_of hi v" j] lt j assms(2) by simp
    ultimately show False using here assms(3) by simp
  qed
qed

lemma axis_of_mono:
  assumes "axis_ok lo hi n L" "v \<le> v'" "v' < L"
  shows "axis_of hi v \<le> axis_of hi v'"
proof -
  have "v' < hi (axis_of hi v')" using axis_of_props(2)[OF assms(1,3)] .
  with assms(2) have "v < hi (axis_of hi v')" by simp
  then show ?thesis unfolding axis_of_def by (rule Least_le)
qed

lemma cursor_advance_reaches:
  assumes "g \<le> t"
    and "\<forall>k. g \<le> k \<and> k < t \<longrightarrow> (\<exists>e. key (int k) = Some e \<and> e \<le> v)"
    and "key (int t) = Some e'" and "v < e'"
  shows "cursor_advance key v (int g) = Some (int t)"
  using assms
proof (induction "t - g" arbitrary: g)
  case 0
  then have "g = t" by simp
  with 0 show ?case by (subst cursor_advance.simps) simp
next
  case (Suc d)
  then have lt: "g < t" by simp
  with Suc.prems obtain e where e: "key (int g) = Some e" "e \<le> v" by blast
  have "cursor_advance key v (int (Suc g)) = Some (int t)"
    using Suc.hyps(1)[of "Suc g"] Suc.hyps(2) Suc.prems lt by auto
  then show ?case using e by (subst cursor_advance.simps) (simp add: add.commute)
qed

lemma grid_ok_rows:
  "grid_ok gc s H W \<Longrightarrow> axis_ok (row_lo gc s) (row_hi gc s) (nat (fst (cell_counts s))) H"
  unfolding grid_ok_def grid_rows_ok_def grid_bounds_ok_def axis_ok_def row_lo_def row_hi_def
  by simp

lemma grid_ok_cols:
  "grid_ok gc s H W \<Longrightarrow> axis_ok (col_lo gc s) (col_hi gc s) (nat (snd (cell_counts s))) W"
  unfolding grid_ok_def grid_cols_ok_def grid_bounds_ok_def axis_ok_def col_lo_def col_hi_def
  by simp

lemma grid_ok_aligned:
  assumes "grid_ok gc s H W" "r < nat (fst (cell_counts s))" "c < nat (snd (cell_counts s))"
  shows "fst (cell_start (grid_cell gc s r c)) = row_lo gc s r"
    "fst (cell_end (grid_cell gc s r c)) = row_hi gc s r"
    "snd (cell_start (grid_cell gc s r c)) = col_lo gc s c"
    "snd (cell_end (grid_cell gc s r c)) = col_hi gc s c"
proof -
  from assms(1) have "grid_aligned gc s" by (simp add: grid_ok_def)
  moreover have "r \<in> {0..<nat (fst (cell_counts s))}" "c \<in> {0..<nat (snd (cell_counts s))}"
    using assms(2,3) by simp_all
  ultimately have "fst (cell_start (grid_cell gc s r c)) = fst (cell_start (grid_cell gc s r 0))
       \<and> fst (cell_end (grid_cell gc s r c)) = fst (cell_end (grid_cell gc s r 0))
       \<and> snd (cell_start (grid_cell gc s r c)) = snd (cell_start (grid_cell gc s 0 c))
       \<and> snd (cell_end (grid_cell gc s r c)) = snd (cell_end (grid_cell gc s 0 c))"
    unfolding grid_aligned_def by blast
  then show "fst (cell_start (grid_cell gc s r c)) = row_lo gc s r"
    "fst (cell_end (grid_cell gc s r c)) = row_hi gc s r"
    "snd (cell_start (grid_cell gc s r c)) = col_lo gc s c"
    "snd (cell_end (grid_cell gc s r c)) = col_hi gc s c"
    by (simp_all add: row_lo_def row_hi_def col_lo_def col_hi_def)
qed

lemma grid_index_bound:
  fixes r c nr nc :: nat
  assumes "r < nr" "c < nc"
  shows "r * nc + c < nr * nc"
proof -
  have "r * nc + c < Suc r * nc" using assms(2) by simp
  also have "\<dots> \<le> nr * nc" using assms(1) by (intro mult_le_mono1) simp
  finally show ?thesis .
qed

lemma my_grid_cells_grid_cell:
  assumes "grid_ok gc s H W" "r < nat (fst (cell_counts s))" "c < nat (snd (cell_counts s))"
  shows "my_grid_cells gc s (int r * snd (cell_counts s) + int c) = Some (grid_cell gc s r c)"
proof -
  let ?nr = "nat (fst (cell_counts s))" and ?nc = "nat (snd (cell_counts s))"
  from assms(1) have s0: "0 \<le> grid_cell_start_idx s" and len: "nat (grid_cell_start_idx s) + ?nr * ?nc \<le> length gc"
    and nc: "0 < snd (cell_counts s)"
    by (simp_all add: grid_ok_def grid_bounds_ok_def)
  have b: "r * ?nc + c < ?nr * ?nc" using assms(2,3) by (rule grid_index_bound)
  have eq: "int r * snd (cell_counts s) + int c = int (r * ?nc + c)" using nc by simp
  have "grid_cell_start_idx s + int (r * ?nc + c) < int (length gc)"
    using s0 len b by linarith
  then show ?thesis
    unfolding my_grid_cells_def read_cell_def grid_cell_def eq using s0 by simp
qed

lemma cursor_advance_axis:
  assumes ax: "axis_ok lo hi n L" and key: "\<And>k. k < n \<Longrightarrow> key (int k) = Some (hi k)"
    and v: "v < L" and g: "g \<le> axis_of hi v"
  shows "cursor_advance key v (int g) = Some (int (axis_of hi v))"
proof (rule cursor_advance_reaches[OF g])
  note p = axis_of_props[OF ax v]
  show "\<forall>k. g \<le> k \<and> k < axis_of hi v \<longrightarrow> (\<exists>e. key (int k) = Some e \<and> e \<le> v)"
    using p key by (metis less_trans)
  show "key (int (axis_of hi v)) = Some (hi (axis_of hi v))" using p(1) key by blast
  show "v < hi (axis_of hi v)" using p(2) .
qed

lemma key_row:
  assumes "grid_ok gc s H W" "r < nat (fst (cell_counts s))"
  shows "map_option (\<lambda>c. fst (cell_end c)) (my_grid_cells gc s (int r * snd (cell_counts s)))
           = Some (row_hi gc s r)"
proof -
  have "0 < nat (snd (cell_counts s))" using assms(1) by (simp add: grid_ok_def grid_bounds_ok_def)
  from my_grid_cells_grid_cell[OF assms this] show ?thesis by (simp add: row_hi_def)
qed

lemma key_col:
  assumes "grid_ok gc s H W" "r < nat (fst (cell_counts s))" "c < nat (snd (cell_counts s))"
  shows "map_option (\<lambda>c. snd (cell_end c)) (my_grid_cells gc s (int r * snd (cell_counts s) + int c))
           = Some (col_hi gc s c)"
  using my_grid_cells_grid_cell[OF assms] grid_ok_aligned(4)[OF assms] by simp

lemma key_min:
  assumes "grid_ok gc s H W" "c < nat (snd (cell_counts s))"
  shows "map_option (\<lambda>c. snd (cell_end c)) (my_grid_cells gc s (int c)) = Some (col_hi gc s c)"
proof -
  have "0 < nat (fst (cell_counts s))" using assms(1) by (simp add: grid_ok_def grid_bounds_ok_def)
  from key_col[OF assms(1) this assms(2)] show ?thesis by simp
qed

lemma scan_row_correct:
  assumes ok: "grid_ok gc s H W" and r: "r < nat (fst (cell_counts s))"
  shows "sorted xs \<Longrightarrow> \<forall>x\<in>set xs. x < W \<Longrightarrow> \<forall>x\<in>set xs. gx \<le> axis_of (col_hi gc s) x \<Longrightarrow>
     scan_row mem cv gc s y (int r) xs (int gx)
       = Some (map (\<lambda>x. paste_pixel mem cv s
                 (int r * snd (cell_counts s) + int (axis_of (col_hi gc s) x))
                 (grid_cell gc s r (axis_of (col_hi gc s) x)) y x) xs)"
proof (induction xs arbitrary: gx)
  case Nil
  then show ?case by simp
next
  case (Cons x xs)
  let ?cx = "axis_of (col_hi gc s) x"
  note ax = grid_ok_cols[OF ok]
  have xW: "x < W" using Cons.prems(2) by simp
  have cx: "?cx < nat (snd (cell_counts s))" using axis_of_props(1)[OF ax xW] .
  have adv: "cursor_advance
          (\<lambda>g. map_option (\<lambda>c. snd (cell_end c))
                  (my_grid_cells gc s (int r * snd (cell_counts s) + g))) x (int gx) = Some (int ?cx)"
    by (rule cursor_advance_axis[OF ax _ xW]) (use Cons.prems(3) key_col[OF ok r] in simp_all)
  have cell: "my_grid_cells gc s (int r * snd (cell_counts s) + int ?cx) = Some (grid_cell gc s r ?cx)"
    using my_grid_cells_grid_cell[OF ok r cx] .
  have rest: "\<forall>x'\<in>set xs. ?cx \<le> axis_of (col_hi gc s) x'"
  proof
    fix x' assume x': "x' \<in> set xs"
    then have "x \<le> x'" "x' < W" using Cons.prems(1,2) by simp_all
    then show "?cx \<le> axis_of (col_hi gc s) x'" using axis_of_mono[OF ax] by blast
  qed
  have ih: "scan_row mem cv gc s y (int r) xs (int ?cx)
       = Some (map (\<lambda>x. paste_pixel mem cv s
                 (int r * snd (cell_counts s) + int (axis_of (col_hi gc s) x))
                 (grid_cell gc s r (axis_of (col_hi gc s) x)) y x) xs)"
    using Cons.IH[OF _ _ rest] Cons.prems(1,2) by simp
  show ?case by (simp add: adv cell ih)
qed

lemma scan_rows_correct:
  assumes ok: "grid_ok gc s H W"
    and xs: "sorted xs" "\<forall>x\<in>set xs. x < W" "\<forall>x\<in>set xs. mgx \<le> axis_of (col_hi gc s) x"
  shows "sorted ys \<Longrightarrow> \<forall>y\<in>set ys. y < H \<Longrightarrow> \<forall>y\<in>set ys. gy \<le> axis_of (row_hi gc s) y \<Longrightarrow>
     scan_rows mem cv gc s xs (int mgx) ys (int gy)
       = Some (concat (map (\<lambda>y. map (resolved_event mem cv gc s y) xs) ys))"
proof (induction ys arbitrary: gy)
  case Nil
  then show ?case by simp
next
  case (Cons y ys)
  let ?ry = "axis_of (row_hi gc s) y"
  note ax = grid_ok_rows[OF ok]
  have yH: "y < H" using Cons.prems(2) by simp
  have ry: "?ry < nat (fst (cell_counts s))" using axis_of_props(1)[OF ax yH] .
  have adv: "cursor_advance
          (\<lambda>g. map_option (\<lambda>c. fst (cell_end c))
                  (my_grid_cells gc s (g * snd (cell_counts s)))) y (int gy) = Some (int ?ry)"
    by (rule cursor_advance_axis[OF ax _ yH]) (use Cons.prems(3) key_row[OF ok] in simp_all)
  have row: "scan_row mem cv gc s y (int ?ry) xs (int mgx) = Some (map (resolved_event mem cv gc s y) xs)"
    using scan_row_correct[OF ok ry xs, of mem cv y] by (simp add: resolved_event_def [abs_def])
  have rest: "\<forall>y'\<in>set ys. ?ry \<le> axis_of (row_hi gc s) y'"
  proof
    fix y' assume "y' \<in> set ys"
    then have "y \<le> y'" "y' < H" using Cons.prems(1,2) by simp_all
    then show "?ry \<le> axis_of (row_hi gc s) y'" using axis_of_mono[OF ax] by blast
  qed
  have ih: "scan_rows mem cv gc s xs (int mgx) ys (int ?ry)
       = Some (concat (map (\<lambda>y. map (resolved_event mem cv gc s y) xs) ys))"
    using Cons.IH[OF _ _ rest] Cons.prems(1,2) by simp
  show ?case by (simp add: adv row ih)
qed

lemma scan_rows_no_columns:
  "scan_rows mem cv gc s [] mgx ys gy = Some evs \<Longrightarrow> evs = []"
  by (induction ys arbitrary: gy evs) (auto split: option.splits)

lemma for_range_set: "set (for_range y e step) \<subseteq> {y..<e}"
proof (induction y e step rule: for_range.induct)
  case (1 y e step)
  show ?case
  proof (cases "y < e \<and> 0 < step")
    case True
    then have "set (for_range (y + step) e step) \<subseteq> {y..<e}" using 1 by auto
    with True show ?thesis by (subst for_range.simps) simp
  next
    case False
    then show ?thesis by (subst for_range.simps) auto
  qed
qed

lemma for_range_sorted: "sorted (for_range y e step)"
proof (induction y e step rule: for_range.induct)
  case (1 y e step)
  show ?case
  proof (cases "y < e \<and> 0 < step")
    case True
    have "\<forall>z\<in>set (for_range (y + step) e step). y \<le> z"
      using for_range_set[of "y + step" e step] True by auto
    with True 1 show ?thesis by (subst for_range.simps) simp
  next
    case False
    then show ?thesis by (subst for_range.simps) auto
  qed
qed

lemma filter_upt_single: "t < n \<Longrightarrow> filter (\<lambda>k. k = t) [0..<n] = [t]"
proof (induction n)
  case 0
  then show ?case by simp
next
  case (Suc n)
  show ?case
  proof (cases "t = n")
    case True
    have "filter (\<lambda>k. k = n) [0..<n] = []" by (simp add: filter_empty_conv)
    with True show ?thesis by simp
  next
    case False
    with Suc show ?thesis by simp
  qed
qed

lemma cell_contains_iff:
  assumes ok: "grid_ok gc s H W" and r: "r < nat (fst (cell_counts s))" and c: "c < nat (snd (cell_counts s))"
    and y: "0 \<le> y" "y < H" and x: "0 \<le> x" "x < W"
  shows "cell_contains (grid_cell gc s r c) y x
           \<longleftrightarrow> r = axis_of (row_hi gc s) y \<and> c = axis_of (col_hi gc s) x"
proof -
  note rows = grid_ok_rows[OF ok] and cols = grid_ok_cols[OF ok]
  note al = grid_ok_aligned[OF ok r c]
  have "cell_contains (grid_cell gc s r c) y x
      \<longleftrightarrow> (row_lo gc s r \<le> y \<and> y < row_hi gc s r) \<and> (col_lo gc s c \<le> x \<and> x < col_hi gc s c)"
    by (simp add: cell_contains_def al)
  also have "(row_lo gc s r \<le> y \<and> y < row_hi gc s r) \<longleftrightarrow> r = axis_of (row_hi gc s) y"
    using axis_of_unique[OF rows r, of y] axis_of_lo[OF rows y] axis_of_props(2)[OF rows y(2)]
    by blast
  also have "(col_lo gc s c \<le> x \<and> x < col_hi gc s c) \<longleftrightarrow> c = axis_of (col_hi gc s) x"
    using axis_of_unique[OF cols c, of x] axis_of_lo[OF cols x] axis_of_props(2)[OF cols x(2)]
    by blast
  finally show ?thesis .
qed

lemma naive_search_unique:
  assumes ok: "grid_ok gc s H W" and y: "0 \<le> y" "y < H" and x: "0 \<le> x" "x < W"
  shows "naive_search gc s y x
           = [int (axis_of (row_hi gc s) y) * snd (cell_counts s) + int (axis_of (col_hi gc s) x)]"
proof -
  let ?nr = "nat (fst (cell_counts s))" and ?nc = "nat (snd (cell_counts s))"
  let ?ry = "axis_of (row_hi gc s) y" and ?cx = "axis_of (col_hi gc s) x"
  let ?P = "\<lambda>k. case my_grid_cells gc s k of None \<Rightarrow> False | Some c \<Rightarrow> cell_contains c y x"
  have nc: "0 < snd (cell_counts s)" using ok by (simp add: grid_ok_def grid_bounds_ok_def)
  have ry: "?ry < ?nr" using axis_of_props(1)[OF grid_ok_rows[OF ok] y(2)] .
  have cx: "?cx < ?nc" using axis_of_props(1)[OF grid_ok_cols[OF ok] x(2)] .
  have t: "?ry * ?nc + ?cx < ?nr * ?nc" using ry cx by (rule grid_index_bound)
  have P: "?P (int k) \<longleftrightarrow> k = ?ry * ?nc + ?cx" if k: "k < ?nr * ?nc" for k
  proof -
    have c: "k mod ?nc < ?nc" using nc by simp
    have r: "k div ?nc < ?nr" using k by (simp add: less_mult_imp_div_less)
    have "int k = int (k div ?nc) * snd (cell_counts s) + int (k mod ?nc)"
    proof -
      have inc: "int ?nc = snd (cell_counts s)" using nc by simp
      have "int k = int (k div ?nc * ?nc + k mod ?nc)" by simp
      then have "int k = int (k div ?nc) * int ?nc + int (k mod ?nc)"
        by (simp only: of_nat_add of_nat_mult)
      then show ?thesis by (simp only: inc)
    qed
    then have "my_grid_cells gc s (int k) = Some (grid_cell gc s (k div ?nc) (k mod ?nc))"
      using my_grid_cells_grid_cell[OF ok r c] by simp
    then have "?P (int k) \<longleftrightarrow> k div ?nc = ?ry \<and> k mod ?nc = ?cx"
      using cell_contains_iff[OF ok r c y x] by simp
    also have "\<dots> \<longleftrightarrow> k = ?ry * ?nc + ?cx"
    proof
      assume "k div ?nc = ?ry \<and> k mod ?nc = ?cx"
      then show "k = ?ry * ?nc + ?cx" using div_mult_mod_eq[of k ?nc] by simp
    next
      assume "k = ?ry * ?nc + ?cx"
      then show "k div ?nc = ?ry \<and> k mod ?nc = ?cx" using cx by simp
    qed
    finally show ?thesis .
  qed
  have "naive_search gc s y x = map int (filter (\<lambda>k. ?P (int k)) [0..<?nr * ?nc])"
    by (simp add: naive_search_def filter_map comp_def)
  also have "filter (\<lambda>k. ?P (int k)) [0..<?nr * ?nc] = filter (\<lambda>k. k = ?ry * ?nc + ?cx) [0..<?nr * ?nc]"
    by (rule filter_cong) (use P in simp_all)
  also have "\<dots> = [?ry * ?nc + ?cx]" using t by (rule filter_upt_single)
  finally show ?thesis using nc by simp
qed

lemma resolved_event_fields:
  "ev_y (resolved_event mem cv gc s y x) = y"
  "ev_x (resolved_event mem cv gc s y x) = x"
  "ev_cell (resolved_event mem cv gc s y x)
     = int (axis_of (row_hi gc s) y) * snd (cell_counts s) + int (axis_of (col_hi gc s) x)"
  by (simp_all add: resolved_event_def paste_pixel_def Let_def split: option.split)

lemma resolved_scan_naive:
  assumes ok: "grid_ok gc s H W"
    and ys: "\<forall>y\<in>set ys. 0 \<le> y \<and> y < H" and xs: "\<forall>x\<in>set xs. 0 \<le> x \<and> x < W"
  shows "map (\<lambda>e. (ev_y e, ev_x e, [ev_cell e]))
           (concat (map (\<lambda>y. map (resolved_event mem cv gc s y) xs) ys))
         = naive_scan gc s ys xs"
proof -
  have "map (\<lambda>e. (ev_y e, ev_x e, [ev_cell e])) (map (resolved_event mem cv gc s y) xs)
          = map (\<lambda>x. (y, x, naive_search gc s y x)) xs" if "y \<in> set ys" for y
    using that ys xs by (simp add: resolved_event_fields naive_search_unique[OF ok])
  then show ?thesis
    by (simp add: naive_scan_def map_concat comp_def cong: map_cong)
qed


section \<open>What the kernel stores, and what the packer writes\<close>

lemma paste_pixel_fields:
  "ev_y (paste_pixel mem cv s k cell y x) = y"
  "ev_x (paste_pixel mem cv s k cell y x) = x"
  "ev_cell (paste_pixel mem cv s k cell y x) = k"
  "ev_offset (paste_pixel mem cv s k cell y x) = y * snd (out_pitch s) + x"
  by (simp_all add: paste_pixel_def Let_def split: option.split)

lemma paste_pixel_value:
  "ev_value (paste_pixel mem cv s k cell y x)
     = (case in_ptr cell of
          None \<Rightarrow> 0
        | Some p \<Rightarrow> cv (mem p ((y - fst (cell_start cell) + fst (in_anchor cell)) * snd (in_pitch cell)
                            + (x - snd (cell_start cell) + snd (in_anchor cell)))))"
  by (simp add: paste_pixel_def Let_def split: option.split)

lemma paste_pixel_load:
  "ev_load (paste_pixel mem cv s k cell y x)
     = map_option (\<lambda>p. (p, (y - fst (cell_start cell) + fst (in_anchor cell)) * snd (in_pitch cell)
                            + (x - snd (cell_start cell) + snd (in_anchor cell)))) (in_ptr cell)"
  by (simp add: paste_pixel_def Let_def split: option.split)

lemma scan_row_events:
  "scan_row mem cv gc s y gy xs gx = Some evs \<Longrightarrow>
     map (\<lambda>e. (ev_y e, ev_x e)) evs = map (\<lambda>x. (y, x)) xs
     \<and> (\<forall>e\<in>set evs. event_of_cell mem cv gc s e)"
proof (induction xs arbitrary: gx evs)
  case Nil
  then show ?case by simp
next
  case (Cons x xs)
  from Cons.prems obtain gx' cell evs' where
    cell: "my_grid_cells gc s (gy * snd (cell_counts s) + gx') = Some cell"
    and rest: "scan_row mem cv gc s y gy xs gx' = Some evs'"
    and evs: "evs = paste_pixel mem cv s (gy * snd (cell_counts s) + gx') cell y x # evs'"
    by (auto split: option.splits)
  have "event_of_cell mem cv gc s (paste_pixel mem cv s (gy * snd (cell_counts s) + gx') cell y x)"
    unfolding event_of_cell_def using cell by (simp add: paste_pixel_fields)
  with Cons.IH[OF rest] show ?case by (simp add: evs paste_pixel_fields)
qed

lemma scan_rows_events:
  "scan_rows mem cv gc s xs mgx ys gy = Some evs \<Longrightarrow>
     map (\<lambda>e. (ev_y e, ev_x e)) evs = concat (map (\<lambda>y. map (\<lambda>x. (y, x)) xs) ys)
     \<and> (\<forall>e\<in>set evs. event_of_cell mem cv gc s e)"
proof (induction ys arbitrary: gy evs)
  case Nil
  then show ?case by simp
next
  case (Cons y ys)
  from Cons.prems obtain gy' evs1 evs2 where
    row: "scan_row mem cv gc s y gy' xs mgx = Some evs1"
    and rest: "scan_rows mem cv gc s xs mgx ys gy' = Some evs2"
    and evs: "evs = evs1 @ evs2"
    by (auto split: option.splits)
  from scan_row_events[OF row] Cons.IH[OF rest] show ?case by (auto simp: evs)
qed

lemma PasteKernel_events:
  assumes "PasteKernel mem cv samples gc blocks b t d = Some evs"
    and "read_at blocks b = Some block" and "read_at samples (sample_idx block) = Some s"
  shows "map (\<lambda>e. (ev_y e, ev_x e)) evs
           = concat (map (\<lambda>y. map (\<lambda>x. (y, x))
                       (for_range (fst t + fst (blk_start block)) (fst (blk_end block)) (fst d)))
                  (for_range (snd t + snd (blk_start block)) (snd (blk_end block)) (snd d)))"
    and "\<forall>e\<in>set evs. event_of_cell mem cv gc s e"
  using assms scan_rows_events[of mem cv gc s _ _ _ 0 evs]
  by (auto simp: PasteKernel_def split: option.splits)

lemma pack_cells_nth:
  "pack_cells j grid ins ch oc = Inr cells \<Longrightarrow>
     length cells = length oc
     \<and> (\<forall>i<length grid. pack_cell ins ch (grid ! i) (oc ! (j + i)) = Inr (cells ! (j + i)))
     \<and> (\<forall>k<j. cells ! k = oc ! k)"
proof (induction grid arbitrary: j oc)
  case Nil
  then show ?case by simp
next
  case (Cons c rest)
  from Cons.prems obtain g where j: "j < length oc"
    and g: "pack_cell ins ch c (oc ! j) = Inr g"
    and r: "pack_cells (j + 1) rest ins ch (oc[j := g]) = Inr cells"
    by (auto split: if_splits sum.splits)
  from Cons.IH[OF r] have len: "length cells = length oc"
    and nth: "\<forall>i<length rest. pack_cell ins ch (rest ! i) ((oc[j := g]) ! (j + 1 + i)) = Inr (cells ! (j + 1 + i))"
    and low: "\<forall>k<j + 1. cells ! k = (oc[j := g]) ! k"
    by simp_all
  have cj: "cells ! j = g" using low j by simp
  have "pack_cell ins ch ((c # rest) ! i) (oc ! (j + i)) = Inr (cells ! (j + i))" if "i < length (c # rest)" for i
  proof (cases i)
    case 0
    then show ?thesis using g cj by simp
  next
    case (Suc i')
    then have "i' < length rest" using that by simp
    with nth have "pack_cell ins ch (rest ! i') ((oc[j := g]) ! (j + 1 + i')) = Inr (cells ! (j + 1 + i'))"
      by blast
    then show ?thesis using Suc by simp
  qed
  moreover have "\<forall>k<j. cells ! k = oc ! k" using low by simp
  ultimately show ?case using len by blast
qed

lemma pack_cell_background:
  assumes "pack_cell ins ch c g = Inr g'" "input_idx c = -1"
  shows "in_ptr g' = None" "snd (in_pitch g') = - ch"
  using assms by (auto simp: pack_cell_def Let_def split: if_splits)

lemma channels_loop_iff: "channels_loop r shs \<longleftrightarrow> (\<forall>sh\<in>set shs. ext2 sh = r)"
  by (induction shs) auto

text \<open>
  The packer scales the column coordinates and the pitches by its parameter \<open>channels\<close>;
  \<open>Run\<close> fixes it at 3, whatever the channel count of the batch.
\<close>

lemma pack_samples_nth:
  "pack_samples j samples outs ch od = Inr descs \<Longrightarrow>
     length descs = length od
     \<and> (\<forall>i<length samples. snd (out_pitch (descs ! (j + i))) = ext1 (shape (outs ! (j + i))) * ch
                            \<and> out_ptr (descs ! (j + i)) = Some (data (outs ! (j + i))))
     \<and> (\<forall>k<j. descs ! k = od ! k)"
proof (induction samples arbitrary: j od)
  case Nil
  then show ?case by simp
next
  case (Cons s rest)
  let ?g = "(od ! j)\<lparr>out_ptr := Some (data (outs ! j)),
               grid_cell_start_idx := cpu_grid_cell_start_idx s,
               cell_counts := cpu_cell_counts s,
               out_pitch := (fst (out_pitch (od ! j)), ext1 (shape (outs ! j)) * ch)\<rparr>"
  from Cons.prems have j: "j < length od"
    and r: "pack_samples (j + 1) rest outs ch (od[j := ?g]) = Inr descs"
    by (auto simp: Let_def split: if_splits)
  have g: "snd (out_pitch ?g) = ext1 (shape (outs ! j)) * ch" "out_ptr ?g = Some (data (outs ! j))"
    by simp_all
  from Cons.IH[OF r] have len: "length descs = length od"
    and nth: "\<forall>i<length rest. snd (out_pitch (descs ! (j + 1 + i))) = ext1 (shape (outs ! (j + 1 + i))) * ch
                            \<and> out_ptr (descs ! (j + 1 + i)) = Some (data (outs ! (j + 1 + i)))"
    and low: "\<forall>k<j + 1. descs ! k = (od[j := ?g]) ! k"
    by simp_all
  have dj: "descs ! j = ?g" using low j by simp
  have "snd (out_pitch (descs ! (j + i))) = ext1 (shape (outs ! (j + i))) * ch
          \<and> out_ptr (descs ! (j + i)) = Some (data (outs ! (j + i)))" if "i < length (s # rest)" for i
  proof (cases i)
    case 0
    then show ?thesis using g dj by simp
  next
    case (Suc i')
    then have "i' < length rest" using that by simp
    with nth show ?thesis using Suc by simp
  qed
  moreover have "\<forall>k<j. descs ! k = od ! k" using low by simp
  ultimately show ?case using len by blast
qed

lemma pack_cell_scales:
  assumes "pack_cell ins ch c g = Inr g'"
  shows "snd (cell_start g') = snd (cpu_cell_start c) * ch"
    and "snd (cell_end g') = snd (cpu_cell_end c) * ch"
    and "snd (in_anchor g') = snd (cpu_in_anchor c) * ch"
    and "input_idx c \<noteq> -1 \<Longrightarrow> snd (in_pitch g') = ext1 (shape (ins ! nat (input_idx c))) * ch"
    and "fst (cell_start g') = fst (cpu_cell_start c)"
    and "fst (cell_end g') = fst (cpu_cell_end c)"
    and "fst (in_anchor g') = fst (cpu_in_anchor c)"
  using assms by (auto simp: pack_cell_def Let_def split: if_splits)

lemma Run_scales_by_three:
  assumes "Run self outs ins samples grid = Inr self'"
  shows "\<forall>i<length samples. snd (out_pitch (sample_descriptors self' ! i)) = ext1 (shape (outs ! i)) * 3"
    and "\<forall>i<length grid.
           snd (cell_start (grid_cell_descriptors self' ! i)) = snd (cpu_cell_start (grid ! i)) * 3
         \<and> snd (cell_end (grid_cell_descriptors self' ! i)) = snd (cpu_cell_end (grid ! i)) * 3
         \<and> snd (in_anchor (grid_cell_descriptors self' ! i)) = snd (cpu_in_anchor (grid ! i)) * 3
         \<and> (input_idx (grid ! i) \<noteq> -1 \<longrightarrow>
               snd (in_pitch (grid_cell_descriptors self' ! i))
                 = ext1 (shape (ins ! nat (input_idx (grid ! i)))) * 3)"
proof -
  from assms obtain descs cells where
    ps: "pack_samples 0 samples outs 3 (sample_descriptors self) = Inr descs"
    and pc: "pack_cells 0 grid ins 3 (grid_cell_descriptors self) = Inr cells"
    and s': "self' = self\<lparr>sample_descriptors := descs, grid_cell_descriptors := cells\<rparr>"
    by (auto simp: Run_def CreateSampleDescriptors_def split: sum.splits if_splits)
  show "\<forall>i<length samples. snd (out_pitch (sample_descriptors self' ! i)) = ext1 (shape (outs ! i)) * 3"
    using pack_samples_nth[OF ps] by (simp add: s')
  show "\<forall>i<length grid.
           snd (cell_start (grid_cell_descriptors self' ! i)) = snd (cpu_cell_start (grid ! i)) * 3
         \<and> snd (cell_end (grid_cell_descriptors self' ! i)) = snd (cpu_cell_end (grid ! i)) * 3
         \<and> snd (in_anchor (grid_cell_descriptors self' ! i)) = snd (cpu_in_anchor (grid ! i)) * 3
         \<and> (input_idx (grid ! i) \<noteq> -1 \<longrightarrow>
               snd (in_pitch (grid_cell_descriptors self' ! i))
                 = ext1 (shape (ins ! nat (input_idx (grid ! i)))) * 3)"
  proof (intro allI impI)
    fix i assume "i < length grid"
    with pack_cells_nth[OF pc]
    have "pack_cell ins 3 (grid ! i) (grid_cell_descriptors self ! i) = Inr (cells ! i)" by simp
    from pack_cell_scales(1-4)[OF this] show
      "snd (cell_start (grid_cell_descriptors self' ! i)) = snd (cpu_cell_start (grid ! i)) * 3
         \<and> snd (cell_end (grid_cell_descriptors self' ! i)) = snd (cpu_cell_end (grid ! i)) * 3
         \<and> snd (in_anchor (grid_cell_descriptors self' ! i)) = snd (cpu_in_anchor (grid ! i)) * 3
         \<and> (input_idx (grid ! i) \<noteq> -1 \<longrightarrow>
               snd (in_pitch (grid_cell_descriptors self' ! i))
                 = ext1 (shape (ins ! nat (input_idx (grid ! i)))) * 3)"
      by (simp add: s')
  qed
qed

section \<open>The CPU operator: painter's order\<close>

lemma find_snoc:
  "find P (xs @ [a]) = (case find P xs of None \<Rightarrow> (if P a then Some a else None) | Some x \<Rightarrow> Some x)"
  by (induction xs) auto

lemma paste_iteration_eq:
  assumes "cpu_shape t = sh" "length (cpu_data t) = len"
  shows "paste_iteration cv images args iter t =
     (if iter_ok images args sh len iter
      then Inr (t\<lparr>cpu_data := map (\<lambda>k. if iter_covers images args sh iter k
                                         then iter_value cv images args sh iter k
                                         else cpu_data t ! k) [0..<len]\<rparr>)
      else Inl PasteFailed)"
  using assms
  by (auto simp: paste_iteration_def PasteCpu_Run_def iter_ok_def iter_covers_def iter_value_def
        iter_shape_def Let_def)

lemma run_iterations_painter:
  assumes f: "\<And>iter t. cpu_shape t = sh \<Longrightarrow> length (cpu_data t) = len \<Longrightarrow>
     f iter t = (if ok iter
                 then Inr (t\<lparr>cpu_data := map (\<lambda>k. if cov iter k then val iter k else cpu_data t ! k) [0..<len]\<rparr>)
                 else Inl PasteFailed)"
  shows "cpu_shape t = sh \<Longrightarrow> length (cpu_data t) = len \<Longrightarrow>
     run_iterations f its t =
       (if \<forall>it\<in>set its. ok it
        then Inr (t\<lparr>cpu_data := map (painted cov val its (cpu_data t)) [0..<len]\<rparr>)
        else Inl PasteFailed)"
proof (induction its arbitrary: t)
  case Nil
  have "map (painted cov val [] (cpu_data t)) [0..<length (cpu_data t)] = cpu_data t"
    by (simp add: painted_def [abs_def] map_nth)
  with Nil show ?case by simp
next
  case (Cons a rest)
  show ?case
  proof (cases "ok a")
    case False
    then show ?thesis using f[OF Cons.prems, of a] by simp
  next
    case True
    let ?d1 = "map (\<lambda>k. if cov a k then val a k else cpu_data t ! k) [0..<len]"
    let ?t1 = "t\<lparr>cpu_data := ?d1\<rparr>"
    have fa: "f a t = Inr ?t1" using f[OF Cons.prems, of a] True by simp
    have t1: "cpu_shape ?t1 = sh" "length (cpu_data ?t1) = len" using Cons.prems by simp_all
    have pt: "map (painted cov val rest ?d1) [0..<len] = map (painted cov val (a # rest) (cpu_data t)) [0..<len]"
    proof (rule map_cong[OF refl])
      fix k assume "k \<in> set [0..<len]"
      then have k: "k < len" by simp
      then have "?d1 ! k = (if cov a k then val a k else cpu_data t ! k)" by simp
      then show "painted cov val rest ?d1 k = painted cov val (a # rest) (cpu_data t) k"
        by (simp add: painted_def find_snoc split: option.split)
    qed
    show ?thesis using Cons.IH[OF t1] fa True pt by simp
  qed
qed

lemma run_iterations_append:
  "run_iterations f (xs @ ys) t =
     (case run_iterations f xs t of Inl e \<Rightarrow> Inl e | Inr t' \<Rightarrow> run_iterations f ys t')"
  by (induction xs arbitrary: t) (auto split: sum.splits)

lemma run_work_concat: "run_work f ws t = run_iterations f (concat ws) t"
  by (induction ws arbitrary: t) (auto simp: run_iterations_append split: sum.splits)

lemma find_unique_any_order:
  assumes "set xs = set ys" and "\<And>a b. a \<in> set xs \<Longrightarrow> b \<in> set xs \<Longrightarrow> P a \<Longrightarrow> P b \<Longrightarrow> a = b"
  shows "find P xs = find P ys"
proof (cases "find P xs")
  case None
  then have "\<not> (\<exists>x. x \<in> set ys \<and> P x)" using assms(1) by (simp add: find_None_iff)
  then have "find P ys = None" by (simp add: find_None_iff)
  with None show ?thesis by simp
next
  case (Some a)
  then have a: "a \<in> set xs" "P a" by (auto simp: find_Some_iff)
  then have "find P ys \<noteq> None" using assms(1) by (auto simp: find_None_iff)
  then obtain b where b: "find P ys = Some b" by auto
  then have "b \<in> set ys" "P b" by (auto simp: find_Some_iff)
  then have "a = b" using a assms by blast
  with Some b show ?thesis by simp
qed

lemma mset_concat_perm: "mset ws' = mset ws \<Longrightarrow> mset (concat ws') = mset (concat ws)"
proof -
  assume "mset ws' = mset ws"
  then have "sum_mset (image_mset mset (mset ws')) = sum_mset (image_mset mset (mset ws))" by simp
  then show ?thesis by (simp add: mset_concat flip: sum_mset_sum_list)
qed

lemma in_rect_overlap:
  "in_rect a1 s1 y x \<Longrightarrow> in_rect a2 s2 y x \<Longrightarrow> rects_overlap a1 s1 a2 s2"
  by (auto simp: in_rect_def rects_overlap_def)

lemma covers_overlap:
  "iter_covers images args sh a k \<Longrightarrow> iter_covers images args sh b k \<Longrightarrow>
     rects_overlap (GetOutAnchors args a) (iter_shape images args a)
                   (GetOutAnchors args b) (iter_shape images args b)"
  by (auto simp: iter_covers_def paste_covers_def split: prod.splits intro: in_rect_overlap)

lemma length_memset_zero: "length (memset_zero buf n) = length buf"
  by (simp add: memset_zero_def)

lemma concat_work_items: "concat (work_items flag n) = [0..<n]"
  by (simp add: work_items_def)

lemma RunImpl_sample_unfold:
  "RunImpl_sample cv dispatch images args t =
     (let n = ext0 (cpu_shape t) * ext1 (cpu_shape t) * ext2 (cpu_shape t)
      in if n < 0 \<or> int (length (cpu_data t) * (LENGTH('a) div 8)) < n then Inl OutOfRange
         else run_iterations (paste_iteration cv images args)
                (concat (dispatch (work_items (no_intersections args) (length (in_idx args)))))
                (t\<lparr>cpu_data := memset_zero (cpu_data t) (nat n)\<rparr>))"
  for t :: "('a::len) word TensorCPU"
  by (simp add: RunImpl_sample_def Let_def run_work_concat)

lemma RunImpl_sample_painter:
  fixes t :: "('a::len) word TensorCPU"
  assumes perm: "mset (dispatch (work_items (no_intersections args) (length (in_idx args))))
                   = mset (work_items (no_intersections args) (length (in_idx args)))"
  defines "its \<equiv> concat (dispatch (work_items (no_intersections args) (length (in_idx args))))"
    and "n \<equiv> ext0 (cpu_shape t) * ext1 (cpu_shape t) * ext2 (cpu_shape t)"
  shows "RunImpl_sample cv dispatch images args t =
     (if n < 0 \<or> int (length (cpu_data t) * (LENGTH('a) div 8)) < n then Inl OutOfRange
      else if \<forall>it\<in>set its. iter_ok images args (cpu_shape t) (length (cpu_data t)) it
      then Inr (t\<lparr>cpu_data :=
             map (painted (iter_covers images args (cpu_shape t))
                    (iter_value cv images args (cpu_shape t)) its
                    (memset_zero (cpu_data t) (nat n)))
               [0..<length (cpu_data t)]\<rparr>)
      else Inl PasteFailed)"
    and "mset its = mset [0..<length (in_idx args)]"
proof -
  let ?t0 = "t\<lparr>cpu_data := memset_zero (cpu_data t) (nat n)\<rparr>"
  have t0: "cpu_shape ?t0 = cpu_shape t" "length (cpu_data ?t0) = length (cpu_data t)"
    by (simp_all add: length_memset_zero)
  have "run_iterations (paste_iteration cv images args) its ?t0 =
       (if \<forall>it\<in>set its. iter_ok images args (cpu_shape t) (length (cpu_data t)) it
        then Inr (?t0\<lparr>cpu_data :=
               map (painted (iter_covers images args (cpu_shape t))
                      (iter_value cv images args (cpu_shape t)) its (cpu_data ?t0))
                 [0..<length (cpu_data t)]\<rparr>)
        else Inl PasteFailed)"
    by (rule run_iterations_painter[OF paste_iteration_eq t0]) simp_all
  then show "RunImpl_sample cv dispatch images args t =
     (if n < 0 \<or> int (length (cpu_data t) * (LENGTH('a) div 8)) < n then Inl OutOfRange
      else if \<forall>it\<in>set its. iter_ok images args (cpu_shape t) (length (cpu_data t)) it
      then Inr (t\<lparr>cpu_data :=
             map (painted (iter_covers images args (cpu_shape t))
                    (iter_value cv images args (cpu_shape t)) its
                    (memset_zero (cpu_data t) (nat n)))
               [0..<length (cpu_data t)]\<rparr>)
      else Inl PasteFailed)"
    by (simp add: RunImpl_sample_unfold its_def n_def Let_def)
  show "mset its = mset [0..<length (in_idx args)]"
    unfolding its_def using mset_concat_perm[OF perm] by (simp add: concat_work_items)
qed

lemma find_last_upt:
  "B < n \<Longrightarrow> P B \<Longrightarrow> \<forall>C. B < C \<and> C < n \<longrightarrow> \<not> P C \<Longrightarrow> find P (rev [0..<n]) = Some B"
proof (induction n)
  case 0
  then show ?case by simp
next
  case (Suc n)
  show ?case
  proof (cases "B = n")
    case True
    with Suc.prems show ?thesis by simp
  next
    case False
    with Suc.prems have "B < n" "\<not> P n" by auto
    with Suc show ?thesis by simp
  qed
qed

lemma memset_zero_single_byte_elements:
  fixes buf :: "('a::len) word list"
  assumes "LENGTH('a) = 8"
  shows "memset_zero buf (length buf) = replicate (length buf) 0"
proof -
  have "memset_zero buf (length buf) = map (\<lambda>j. 0) [0..<length buf]"
    unfolding memset_zero_def by (rule map_cong) (simp_all add: assms Let_def)
  then show ?thesis by (simp add: map_replicate_const)
qed

lemma setup_shapes_nth:
  "length (setup_shapes os i shs) = length shs
   \<and> (\<forall>k<length shs. setup_shapes os i shs ! k = (os (i + k) 0, os (i + k) 1, ext2 (shs ! k)))"
proof (induction shs arbitrary: i)
  case Nil
  then show ?case by simp
next
  case (Cons sh rest)
  have "setup_shapes os i (sh # rest) ! k = (os (i + k) 0, os (i + k) 1, ext2 ((sh # rest) ! k))"
    if "k < length (sh # rest)" for k
    using that Cons[of "i + 1"] by (cases k) simp_all
  then show ?case using Cons[of "i + 1"] by simp
qed


text \<open>
  Claim C1. Take any block and any thread of it, a sample whose cells satisfy the grid
  invariant on an \<open>H\<close> by \<open>W\<close> canvas, and a block that lies inside the canvas. If
  the thread's first column is inside the block, the kernel returns; and whenever it
  returns, its events are the pixels \<open>(y, x)\<close> of the scan in row-major order, and the
  cell the forward-only cursor resolved at each of them is the single cell that the naive
  search finds for \<open>(y, x)\<close>. The row cursor only advances over the scan; the column cursor
  starts each row at \<open>min_grid_x\<close> and only advances within the row.
\<close>

theorem cursor_refines_naive_search:
  assumes blk: "read_at blocks blockIdx = Some block"
    and smp: "read_at samples (sample_idx block) = Some sample"
    and ok: "grid_ok grid_cells sample H W"
    and start: "0 \<le> fst (blk_start block)" "0 \<le> snd (blk_start block)"
    and fin: "fst (blk_end block) \<le> W" "snd (blk_end block) \<le> H"
    and thr: "0 \<le> fst threadIdx" "0 \<le> snd threadIdx"
  shows "(fst threadIdx + fst (blk_start block) < fst (blk_end block) \<longrightarrow>
           PasteKernel mem ConvertSat samples grid_cells blocks blockIdx threadIdx blockDim \<noteq> None)
       \<and> (\<forall>evs. PasteKernel mem ConvertSat samples grid_cells blocks blockIdx threadIdx blockDim = Some evs \<longrightarrow>
             map (\<lambda>e. (ev_y e, ev_x e, [ev_cell e])) evs
               = naive_scan grid_cells sample
                   (for_range (snd threadIdx + snd (blk_start block)) (snd (blk_end block)) (snd blockDim))
                   (for_range (fst threadIdx + fst (blk_start block)) (fst (blk_end block)) (fst blockDim)))"
proof -
  let ?x0 = "fst threadIdx + fst (blk_start block)" and ?y0 = "snd threadIdx + snd (blk_start block)"
  let ?xs = "for_range ?x0 (fst (blk_end block)) (fst blockDim)"
  let ?ys = "for_range ?y0 (snd (blk_end block)) (snd blockDim)"
  let ?K = "PasteKernel mem ConvertSat samples grid_cells blocks blockIdx threadIdx blockDim"
  let ?minkey = "\<lambda>g. map_option (\<lambda>c. snd (cell_end c)) (my_grid_cells grid_cells sample g)"
  have K: "?K = (case cursor_advance ?minkey ?x0 0 of None \<Rightarrow> None
                 | Some m \<Rightarrow> scan_rows mem ConvertSat grid_cells sample ?xs m ?ys 0)"
    by (simp add: PasteKernel_def blk smp)
  note cols = grid_ok_cols[OF ok]
  have xs_set: "\<forall>x\<in>set ?xs. ?x0 \<le> x \<and> x < fst (blk_end block)"
    using for_range_set[of ?x0 "fst (blk_end block)" "fst blockDim"] by auto
  have ys_set: "\<forall>y\<in>set ?ys. ?y0 \<le> y \<and> y < snd (blk_end block)"
    using for_range_set[of ?y0 "snd (blk_end block)" "snd blockDim"] by auto
  have ys_in: "\<forall>y\<in>set ?ys. 0 \<le> y \<and> y < H" using ys_set start(2) thr(2) fin(2) by fastforce
  have xs_in: "\<forall>x\<in>set ?xs. 0 \<le> x \<and> x < W" using xs_set start(1) thr(1) fin(1) by fastforce
  show ?thesis
  proof (cases "?x0 < fst (blk_end block)")
    case True
    then have x0W: "?x0 < W" using fin(1) by simp
    let ?m = "axis_of (col_hi grid_cells sample) ?x0"
    have adv: "cursor_advance ?minkey ?x0 (int 0) = Some (int ?m)"
      by (rule cursor_advance_axis[OF cols _ x0W]) (use key_min[OF ok] in simp_all)
    have m_le: "\<forall>x\<in>set ?xs. ?m \<le> axis_of (col_hi grid_cells sample) x"
      using xs_set xs_in axis_of_mono[OF cols] by blast
    have "scan_rows mem ConvertSat grid_cells sample ?xs (int ?m) ?ys (int 0)
            = Some (concat (map (\<lambda>y. map (resolved_event mem ConvertSat grid_cells sample y) ?xs) ?ys))"
      by (rule scan_rows_correct[OF ok for_range_sorted _ m_le for_range_sorted])
         (use xs_in ys_in in simp_all)
    with adv have "?K = Some (concat (map (\<lambda>y. map (resolved_event mem ConvertSat grid_cells sample y) ?xs) ?ys))"
      by (simp add: K)
    then show ?thesis using resolved_scan_naive[OF ok ys_in xs_in, of mem ConvertSat] by simp
  next
    case False
    then have "?xs = []" by (subst for_range.simps) simp
    moreover have "naive_scan grid_cells sample ?ys [] = []" by (simp add: naive_scan_def)
    ultimately show ?thesis
      using False by (auto simp: K split: option.splits dest: scan_rows_no_columns)
  qed
qed

theorem cursor_refines_naive_search_witness:
  "grid_ok w_cells w_sample 3 6
   \<and> map_option (map (\<lambda>e. (ev_y e, ev_x e, [ev_cell e])))
         (PasteKernel w_mem id [w_sample] w_cells [w_block] 0 (1, 0) (2, 2))
       = Some [(0, 1, [0]), (0, 3, [1]), (0, 5, [1]), (2, 1, [2]), (2, 3, [3]), (2, 5, [3])]"
proof -
  have blk: "read_at [w_block] 0 = Some w_block" by (simp add: read_at_def)
  have smp: "read_at [w_sample] (sample_idx w_block) = Some w_sample"
    by (simp add: read_at_def w_block_def)
  have ok: "grid_ok w_cells w_sample 3 6" by code_simp
  have naive: "naive_scan w_cells w_sample
                 (for_range (snd (1, 0) + snd (blk_start w_block)) (snd (blk_end w_block)) (snd (2, 2)))
                 (for_range (fst (1, 0) + fst (blk_start w_block)) (fst (blk_end w_block)) (fst (2, 2)))
               = [(0, 1, [0]), (0, 3, [1]), (0, 5, [1]), (2, 1, [2]), (2, 3, [3]), (2, 5, [3])]"
    by code_simp
  have lt: "fst (1, 0) + fst (blk_start w_block) < fst (blk_end w_block)" by (simp add: w_block_def)
  have "PasteKernel w_mem id [w_sample] w_cells [w_block] 0 (1, 0) (2, 2) \<noteq> None
     \<and> (\<forall>evs. PasteKernel w_mem id [w_sample] w_cells [w_block] 0 (1, 0) (2, 2) = Some evs \<longrightarrow>
         map (\<lambda>e. (ev_y e, ev_x e, [ev_cell e])) evs
           = [(0, 1, [0]), (0, 3, [1]), (0, 5, [1]), (2, 1, [2]), (2, 3, [3]), (2, 5, [3])])"
    using cursor_refines_naive_search[OF blk smp ok, of "(1, 0)" w_mem id "(2, 2)"] lt
    unfolding naive by (simp add: w_block_def)
  with ok show ?thesis by auto
qed

text \<open>
  Claim C2. Whenever a thread of the kernel returns, its events are the pixels of its
  scan, and for each of them, with \<open>cell\<close> the cell the cursor resolved: the store goes to
  offset \<open>y * out_pitch[1] + x\<close> of the canvas, and the value stored is \<open>ConvertSat\<close> of the
  source element at offset \<open>(y - cell_start[0] + in_anchor[0]) * in_pitch[1]
  + (x - cell_start[1] + in_anchor[1])\<close> if the cell has a source, and 0 if it has none.
\<close>

theorem PasteKernel_stores_source_or_background:
  assumes run: "PasteKernel mem ConvertSat samples grid_cells blocks blockIdx threadIdx blockDim = Some evs"
    and blk: "read_at blocks blockIdx = Some block"
    and smp: "read_at samples (sample_idx block) = Some sample"
  shows "map (\<lambda>e. (ev_y e, ev_x e)) evs
           = concat (map (\<lambda>y. map (\<lambda>x. (y, x))
                       (for_range (fst threadIdx + fst (blk_start block)) (fst (blk_end block)) (fst blockDim)))
                  (for_range (snd threadIdx + snd (blk_start block)) (snd (blk_end block)) (snd blockDim)))
       \<and> (\<forall>e\<in>set evs. \<exists>cell. my_grid_cells grid_cells sample (ev_cell e) = Some cell
           \<and> ev_offset e = ev_y e * snd (out_pitch sample) + ev_x e
           \<and> ev_value e =
               (case in_ptr cell of
                  None \<Rightarrow> 0
                | Some p \<Rightarrow>
                    ConvertSat (mem p ((ev_y e - fst (cell_start cell) + fst (in_anchor cell)) * snd (in_pitch cell)
                                        + (ev_x e - snd (cell_start cell) + snd (in_anchor cell))))))"
proof (intro conjI ballI)
  show "map (\<lambda>e. (ev_y e, ev_x e)) evs
           = concat (map (\<lambda>y. map (\<lambda>x. (y, x))
                       (for_range (fst threadIdx + fst (blk_start block)) (fst (blk_end block)) (fst blockDim)))
                  (for_range (snd threadIdx + snd (blk_start block)) (snd (blk_end block)) (snd blockDim)))"
    using PasteKernel_events(1)[OF run blk smp] .
next
  fix e assume e: "e \<in> set evs"
  from PasteKernel_events(2)[OF run blk smp] e obtain cell where
    cell: "my_grid_cells grid_cells sample (ev_cell e) = Some cell"
    and eq: "e = paste_pixel mem ConvertSat sample (ev_cell e) cell (ev_y e) (ev_x e)"
    unfolding event_of_cell_def by blast
  have "ev_offset e = ev_y e * snd (out_pitch sample) + ev_x e"
    by (subst eq) (simp only: paste_pixel_fields)
  moreover have "ev_value e =
               (case in_ptr cell of
                  None \<Rightarrow> 0
                | Some p \<Rightarrow>
                    ConvertSat (mem p ((ev_y e - fst (cell_start cell) + fst (in_anchor cell)) * snd (in_pitch cell)
                                        + (ev_x e - snd (cell_start cell) + snd (in_anchor cell)))))"
    by (subst eq) (simp only: paste_pixel_value)
  ultimately show "\<exists>cell. my_grid_cells grid_cells sample (ev_cell e) = Some cell
           \<and> ev_offset e = ev_y e * snd (out_pitch sample) + ev_x e
           \<and> ev_value e =
               (case in_ptr cell of
                  None \<Rightarrow> 0
                | Some p \<Rightarrow>
                    ConvertSat (mem p ((ev_y e - fst (cell_start cell) + fst (in_anchor cell)) * snd (in_pitch cell)
                                        + (ev_x e - snd (cell_start cell) + snd (in_anchor cell)))))"
    using cell by blast
qed

theorem PasteKernel_stores_source_or_background_witness:
  "PasteKernel w_mem id [w_sample] w_cells [w_block] 0 (1, 0) (2, 2) = Some w_events
   \<and> (\<exists>cell. my_grid_cells w_cells w_sample 3 = Some cell
         \<and> ev_offset (w_events ! 4) = 2 * snd (out_pitch w_sample) + 3
         \<and> ev_value (w_events ! 4) =
             (case in_ptr cell of
                None \<Rightarrow> 0
              | Some p \<Rightarrow>
                  id (w_mem p ((2 - fst (cell_start cell) + fst (in_anchor cell)) * snd (in_pitch cell)
                                + (3 - snd (cell_start cell) + snd (in_anchor cell))))))"
proof -
  have run: "PasteKernel w_mem id [w_sample] w_cells [w_block] 0 (1, 0) (2, 2) = Some w_events"
    by code_simp
  have blk: "read_at [w_block] 0 = Some w_block" by (simp add: read_at_def)
  have smp: "read_at [w_sample] (sample_idx w_block) = Some w_sample"
    by (simp add: read_at_def w_block_def)
  have e: "w_events ! 4 \<in> set w_events" by (simp add: w_events_def)
  have f: "ev_cell (w_events ! 4) = 3" "ev_y (w_events ! 4) = 2" "ev_x (w_events ! 4) = 3"
    by (simp_all add: w_events_def)
  from PasteKernel_stores_source_or_background[OF run blk smp, THEN conjunct2, THEN bspec, OF e] run
  show ?thesis unfolding f by simp
qed

text \<open>
  Claim C7. Let the packer succeed, and let input cell \<open>i\<close> have no source
  (\<open>input_idx = -1\<close>). The packed cell \<open>i\<close> then holds a null source pointer and the
  pitch \<open>-1\<close> scaled like every pitch, \<open>- channels\<close>. Every event of a kernel thread that
  resolved this cell made no load and stored 0: the branch that reads through the pointer
  and uses the pitch is not taken.
\<close>

theorem background_cell_never_read:
  assumes pack: "CreateSampleDescriptors out_descs out_grid_cells outs ins samples grid channels = Inr (descs, cells)"
    and i: "i < length grid" and bg: "input_idx (grid ! i) = -1"
    and run: "PasteKernel mem ConvertSat descs cells blocks blockIdx threadIdx blockDim = Some evs"
    and blk: "read_at blocks blockIdx = Some block"
    and smp: "read_at descs (sample_idx block) = Some sample"
    and e: "e \<in> set evs" and at_i: "grid_cell_start_idx sample + ev_cell e = int i"
  shows "in_ptr (cells ! i) = None \<and> snd (in_pitch (cells ! i)) = - channels
       \<and> ev_load e = None \<and> ev_value e = 0"
proof -
  from pack have pc: "pack_cells 0 grid ins channels out_grid_cells = Inr cells"
    by (auto simp: CreateSampleDescriptors_def split: sum.splits if_splits)
  from pack_cells_nth[OF pc] i
  have "pack_cell ins channels (grid ! i) (out_grid_cells ! i) = Inr (cells ! i)" by simp
  from pack_cell_background[OF this bg]
  have null: "in_ptr (cells ! i) = None" and pitch: "snd (in_pitch (cells ! i)) = - channels" .
  from PasteKernel_events(2)[OF run blk smp] e obtain cell where
    cell: "my_grid_cells cells sample (ev_cell e) = Some cell"
    and eq: "e = paste_pixel mem ConvertSat sample (ev_cell e) cell (ev_y e) (ev_x e)"
    unfolding event_of_cell_def by blast
  from cell at_i have "cell = cells ! i"
    by (auto simp: my_grid_cells_def read_cell_def split: if_splits)
  with null have cn: "in_ptr cell = None" by simp
  have "ev_load e = None" by (subst eq) (simp add: paste_pixel_load cn)
  moreover have "ev_value e = 0" by (subst eq) (simp add: paste_pixel_value cn)
  ultimately show ?thesis using null pitch by simp
qed

theorem background_cell_never_read_witness:
  "CreateSampleDescriptors (sample_descriptors b_self) (grid_cell_descriptors b_self)
      b_outs b_ins b_samples b_grid 3 = Inr (b_descs, b_cells)
   \<and> input_idx (b_grid ! 1) = -1
   \<and> PasteKernel w_mem id b_descs b_cells [b_block] 0 (0, 0) (2, 1) = Some [
        \<lparr>ev_y = 0, ev_x = 0, ev_cell = 0, ev_load = Some (1, 0), ev_offset = 0, ev_value = 100\<rparr>,
        \<lparr>ev_y = 0, ev_x = 2, ev_cell = 0, ev_load = Some (1, 2), ev_offset = 2, ev_value = 102\<rparr>,
        b_event]
   \<and> in_ptr (b_cells ! 1) = None \<and> snd (in_pitch (b_cells ! 1)) = - 3
   \<and> ev_load b_event = None \<and> ev_value b_event = 0"
proof -
  have pack: "CreateSampleDescriptors (sample_descriptors b_self) (grid_cell_descriptors b_self)
      b_outs b_ins b_samples b_grid 3 = Inr (b_descs, b_cells)"
    by code_simp
  have i: "1 < length b_grid" by (simp add: b_grid_def)
  have bg: "input_idx (b_grid ! 1) = -1" by (simp add: b_grid_def)
  have run: "PasteKernel w_mem id b_descs b_cells [b_block] 0 (0, 0) (2, 1) = Some [
        \<lparr>ev_y = 0, ev_x = 0, ev_cell = 0, ev_load = Some (1, 0), ev_offset = 0, ev_value = 100\<rparr>,
        \<lparr>ev_y = 0, ev_x = 2, ev_cell = 0, ev_load = Some (1, 2), ev_offset = 2, ev_value = 102\<rparr>,
        b_event]"
    by code_simp
  have blk: "read_at [b_block] 0 = Some b_block" by (simp add: read_at_def)
  have smp: "read_at b_descs (sample_idx b_block) = Some (b_descs ! 0)"
    by (simp add: read_at_def b_block_def b_descs_def)
  have at_i: "grid_cell_start_idx (b_descs ! 0) + ev_cell b_event = int 1"
    by (simp add: b_descs_def b_event_def)
  from background_cell_never_read[OF pack i bg run blk smp _ at_i] pack bg run
  show ?thesis by simp
qed

section \<open>Setup\<close>

text \<open>
  Claim C8. For a batch with a first sample: if some sample's channel count differs from
  the first sample's, \<open>Setup\<close> fails with the error of its \<open>DALI_ENFORCE\<close>, and otherwise it
  returns the object and its requirements. The failure carries no object state: nothing
  was set up or resized, and packing and the launch belong to \<open>Run\<close>.
\<close>

theorem Setup_fails_iff_channels_differ:
  assumes "ins \<noteq> []"
  shows "if \<exists>t\<in>set ins. ext2 (shape t) \<noteq> ext2 (shape (hd ins))
         then Setup SetupBlocks sz self ins samples grid_cells out_shape
                = Inl (EnforceFailed ''Number of channels for every image in batch must be equal'')
         else \<exists>self' req. Setup SetupBlocks sz self ins samples grid_cells out_shape = Inr (self', req)"
proof -
  from assms obtain t0 rest where ins: "ins = t0 # rest" by (cases ins) auto
  have "channels_equal (map shape ins) = Some (\<forall>t\<in>set ins. ext2 (shape t) = ext2 (shape (hd ins)))"
    by (simp add: channels_equal_def ins channels_loop_iff)
  then show ?thesis
    by (cases "\<forall>t\<in>set ins. ext2 (shape t) = ext2 (shape (hd ins))")
       (simp_all add: Setup_def Let_def)
qed

theorem Setup_fails_iff_channels_differ_witness:
  "m_ins \<noteq> []
   \<and> ext2 (shape (m_ins ! 1)) \<noteq> ext2 (shape (hd m_ins))
   \<and> Setup b_blocks b_sz b_self0 m_ins b_samples b_grid (map shape b_outs)
       = Inl (EnforceFailed ''Number of channels for every image in batch must be equal'')
   \<and> b_ins \<noteq> []
   \<and> (\<exists>self' req. Setup b_blocks b_sz b_self0 b_ins b_samples b_grid (map shape b_outs) = Inr (self', req))"
proof -
  have ne: "m_ins \<noteq> []" "b_ins \<noteq> []" by (simp_all add: m_ins_def b_ins_def)
  have diff: "\<exists>t\<in>set m_ins. ext2 (shape t) \<noteq> ext2 (shape (hd m_ins))"
    by (simp add: m_ins_def ext2_def)
  have same: "\<not> (\<exists>t\<in>set b_ins. ext2 (shape t) \<noteq> ext2 (shape (hd b_ins)))"
    by (simp add: b_ins_def ext2_def)
  have d1: "ext2 (shape (m_ins ! 1)) \<noteq> ext2 (shape (hd m_ins))" by (simp add: m_ins_def ext2_def)
  from Setup_fails_iff_channels_differ[OF ne(1), of b_blocks b_sz b_self0 b_samples b_grid "map shape b_outs"]
    Setup_fails_iff_channels_differ[OF ne(2), of b_blocks b_sz b_self0 b_samples b_grid "map shape b_outs"]
    diff same ne d1
  show ?thesis by presburger
qed

text \<open>
  Claim C9. When \<open>Setup\<close> returns, the requirements are \<open>sizeof(SampleDescriptorGPU)\<close> times
  the number of samples, \<open>sizeof(GridCellGPU)\<close> times the number of grid cells and
  \<open>sizeof(BlockDesc)\<close> times the number of blocks that \<open>SetupBlocks\<close> made of the flattened
  output shape. \<open>Setup\<close> has no access to element data.
\<close>

theorem Setup_scratch_sizes:
  assumes "Setup SetupBlocks sz self ins samples grid_cells out_shape = Inr (self', req)"
  shows "scratch_sizes req =
           [(GPU, SampleDesc, sizeof_SampleDesc sz * length samples),
            (GPU, GridCellDesc, sizeof_GridCellDesc sz * length grid_cells),
            (GPU, BlockDescs, sizeof_BlockDesc sz * length (block_setup self'))]
         \<and> block_setup self' = SetupBlocks (collapse_dim out_shape)
         \<and> length (sample_descriptors self') = length samples
         \<and> length (grid_cell_descriptors self') = length grid_cells"
  using assms
  by (auto simp: Setup_def Let_def se_add_def resize_def split: option.splits bool.splits)

theorem Setup_scratch_sizes_witness:
  "Setup b_blocks b_sz b_self0 b_ins b_samples b_grid (map shape b_outs)
     = Inr (b_self, \<lparr>scratch_sizes = [(GPU, SampleDesc, 32), (GPU, GridCellDesc, 96), (GPU, BlockDescs, 20)]\<rparr>)
   \<and> scratch_sizes \<lparr>scratch_sizes = [(GPU, SampleDesc, 32), (GPU, GridCellDesc, 96), (GPU, BlockDescs, 20)]\<rparr>
       = [(GPU, SampleDesc, sizeof_SampleDesc b_sz * length b_samples),
          (GPU, GridCellDesc, sizeof_GridCellDesc b_sz * length b_grid),
          (GPU, BlockDescs, sizeof_BlockDesc b_sz * length (block_setup b_self))]"
proof -
  have run: "Setup b_blocks b_sz b_self0 b_ins b_samples b_grid (map shape b_outs)
     = Inr (b_self, \<lparr>scratch_sizes = [(GPU, SampleDesc, 32), (GPU, GridCellDesc, 96), (GPU, BlockDescs, 20)]\<rparr>)"
    by code_simp
  from run Setup_scratch_sizes[OF run, THEN conjunct1] show ?thesis by (rule conjI)
qed

section \<open>Run packs with three channels\<close>

text \<open>
  Claim C4. \<open>Run\<close> passes the literal 3 to the packer (\<open>Run_scales_by_three\<close>), so the
  scaling is by the channel count only for batches of three channels. On a batch of one image of 2 by 2
  pixels with one channel, the row pitch of the canvas becomes 6 where width times channels
  is 2, the end column of the first cell becomes 3 where it is 1, and its source pitch
  becomes 6 where it is 2.
\<close>

theorem Run_scales_by_three_not_by_channels:
  "Run b_self b_outs b_ins b_samples b_grid
     = Inr (b_self\<lparr>sample_descriptors := b_descs, grid_cell_descriptors := b_cells\<rparr>)
   \<and> ext2 (shape (b_ins ! 0)) = 1
   \<and> ext1 (shape (b_outs ! 0)) * ext2 (shape (b_ins ! 0)) = 2
   \<and> snd (out_pitch (b_descs ! 0)) = 6
   \<and> snd (cpu_cell_end (b_grid ! 0)) * ext2 (shape (b_ins ! 0)) = 1
   \<and> snd (cell_end (b_cells ! 0)) = 3
   \<and> ext1 (shape (b_ins ! 0)) * ext2 (shape (b_ins ! 0)) = 2
   \<and> snd (in_pitch (b_cells ! 0)) = 6"
proof -
  have "Run b_self b_outs b_ins b_samples b_grid
     = Inr (b_self\<lparr>sample_descriptors := b_descs, grid_cell_descriptors := b_cells\<rparr>)"
    by code_simp
  then show ?thesis
    by (simp add: b_ins_def b_outs_def b_descs_def b_cells_def b_grid_def ext1_def ext2_def)
qed

text \<open>
  Claim C6. If the destination rectangles of a sample's iterations are pairwise disjoint,
  then whatever order the pool runs the sample's work items in (any permutation of them),
  \<open>RunImpl\<close> gives the same result as running them in list order: the same canvas, or the
  same failure.
\<close>

theorem disjoint_pastes_any_order:
  fixes output_i :: "('a::len) word TensorCPU"
  assumes disj: "pairwise_disjoint images args"
    and perm: "mset (dispatch (work_items (no_intersections args) (length (in_idx args))))
                 = mset (work_items (no_intersections args) (length (in_idx args)))"
  shows "RunImpl_sample ConvertSat dispatch images args output_i
           = RunImpl_sample ConvertSat id images args output_i"
proof -
  let ?n = "length (in_idx args)"
  let ?ws = "work_items (no_intersections args) ?n"
  let ?its' = "concat (dispatch ?ws)"
  let ?cov = "iter_covers images args (cpu_shape output_i)"
  have m': "mset ?its' = mset [0..<?n]"
    using RunImpl_sample_painter(2)[where dispatch = dispatch and args = args, OF perm] .
  have its: "concat (id ?ws) = [0..<?n]" by (simp add: concat_work_items)
  have sets: "set ?its' = set [0..<?n]" using m' by (rule mset_eq_setD)
  have uniq: "a = b" if "a \<in> set [0..<?n]" "b \<in> set [0..<?n]" "?cov a k" "?cov b k" for a b k
  proof (rule ccontr)
    assume "a \<noteq> b"
    moreover have "a \<in> {0..<?n}" "b \<in> {0..<?n}" using that(1,2) by simp_all
    ultimately have "\<not> rects_overlap (GetOutAnchors args a) (iter_shape images args a)
                          (GetOutAnchors args b) (iter_shape images args b)"
      using disj unfolding pairwise_disjoint_def by blast
    with covers_overlap[OF that(3,4)] show False by simp
  qed
  have pt: "painted ?cov val ?its' old = painted ?cov val [0..<?n] old"
    for val :: "nat \<Rightarrow> nat \<Rightarrow> 'a word" and old
  proof (rule ext)
    fix k
    have "set (rev [0..<?n]) = set (rev ?its')" using sets by simp
    then have "find (\<lambda>it. ?cov it k) (rev [0..<?n]) = find (\<lambda>it. ?cov it k) (rev ?its')"
      by (rule find_unique_any_order) (use uniq in \<open>simp only: set_rev\<close>)
    then show "painted ?cov val ?its' old k = painted ?cov val [0..<?n] old k"
      by (simp only: painted_def)
  qed
  have pid: "mset (id ?ws) = mset ?ws" by simp
  show ?thesis
    unfolding RunImpl_sample_painter(1)[where dispatch = dispatch and args = args, OF perm]
      RunImpl_sample_painter(1)[where dispatch = id and args = args, OF pid]
    unfolding its pt sets ..
qed

theorem disjoint_pastes_any_order_witness:
  "pairwise_disjoint c5_images c6_args
   \<and> RunImpl_sample word_of_int rev c5_images c6_args c5_canvas
       = RunImpl_sample word_of_int id c5_images c6_args c5_canvas
   \<and> RunImpl_sample word_of_int rev c5_images c6_args c5_canvas
       = Inr \<lparr>cpu_shape = (2, 3, 1), cpu_data = [0, 0, 20, 30, 31, 0]\<rparr>"
proof -
  have disj: "pairwise_disjoint c5_images c6_args" by code_simp
  have perm: "mset (rev (work_items (no_intersections c6_args) (length (in_idx c6_args))))
                = mset (work_items (no_intersections c6_args) (length (in_idx c6_args)))"
    by simp
  have run: "RunImpl_sample word_of_int rev c5_images c6_args c5_canvas
       = Inr \<lparr>cpu_shape = (2, 3, 1), cpu_data = [0, 0, 20, 30, 31, 0]\<rparr>"
    by code_simp
  from disjoint_pastes_any_order[where dispatch = rev, OF disj perm, of word_of_int c5_canvas] disj run
  show ?thesis by simp
qed


text \<open>
  Claim C5, amended. Let a sample run as one sequential work item (\<open>no_intersections_\<close> is
  false) and succeed. If iteration \<open>B\<close> covers element \<open>k\<close> of the canvas and no iteration
  after \<open>B\<close> in the list covers it, the final value of element \<open>k\<close> is \<open>B\<close>'s source value
  there, converted to the output type, whatever earlier iterations wrote.
\<close>

theorem last_covering_paste_wins:
  fixes output_i :: "('a::len) word TensorCPU"
  assumes run: "RunImpl_sample ConvertSat dispatch images args output_i = Inr result"
    and seq: "\<not> no_intersections args"
    and perm: "mset (dispatch (work_items False (length (in_idx args))))
                 = mset (work_items False (length (in_idx args)))"
    and B: "B < length (in_idx args)" and k: "k < length (cpu_data output_i)"
    and cov: "iter_covers images args (cpu_shape output_i) B k"
    and last: "\<forall>C. B < C \<and> C < length (in_idx args) \<longrightarrow> \<not> iter_covers images args (cpu_shape output_i) C k"
  shows "cpu_data result ! k = iter_value ConvertSat images args (cpu_shape output_i) B k"
proof -
  from perm have d: "dispatch (work_items False (length (in_idx args))) = [[0..<length (in_idx args)]]"
    by (simp add: work_items_def)
  have perm': "mset (dispatch (work_items (no_intersections args) (length (in_idx args))))
                 = mset (work_items (no_intersections args) (length (in_idx args)))"
    using perm seq by simp
  have its: "concat (dispatch (work_items (no_intersections args) (length (in_idx args)))) = [0..<length (in_idx args)]"
    using d seq by simp
  from run have "cpu_data result =
       map (painted (iter_covers images args (cpu_shape output_i))
              (iter_value ConvertSat images args (cpu_shape output_i)) [0..<length (in_idx args)]
              (memset_zero (cpu_data output_i)
                 (nat (ext0 (cpu_shape output_i) * ext1 (cpu_shape output_i) * ext2 (cpu_shape output_i)))))
         [0..<length (cpu_data output_i)]"
    unfolding RunImpl_sample_painter(1)[where dispatch = dispatch and args = args, OF perm'] its
    by (auto split: if_splits)
  then have "cpu_data result ! k =
       painted (iter_covers images args (cpu_shape output_i))
              (iter_value ConvertSat images args (cpu_shape output_i)) [0..<length (in_idx args)]
              (memset_zero (cpu_data output_i)
                 (nat (ext0 (cpu_shape output_i) * ext1 (cpu_shape output_i) * ext2 (cpu_shape output_i)))) k"
    using k by simp
  also have "\<dots> = iter_value ConvertSat images args (cpu_shape output_i) B k"
    using find_last_upt[OF B, of "\<lambda>it. iter_covers images args (cpu_shape output_i) it k"] cov last
    by (simp add: painted_def)
  finally show ?thesis .
qed

theorem last_covering_paste_wins_witness:
  "RunImpl_sample word_of_int id c5_images c5_args c5_canvas = Inr c5_result
   \<and> iter_covers c5_images c5_args (cpu_shape c5_canvas) 0 3
   \<and> \<not> iter_covers c5_images c5_args (cpu_shape c5_canvas) 1 3
   \<and> \<not> iter_covers c5_images c5_args (cpu_shape c5_canvas) 2 3
   \<and> cpu_data c5_result ! 3 = iter_value word_of_int c5_images c5_args (cpu_shape c5_canvas) 0 3
   \<and> cpu_data c5_result ! 3 = 12"
proof -
  have run: "RunImpl_sample word_of_int id c5_images c5_args c5_canvas = Inr c5_result"
    by code_simp
  have seq: "\<not> no_intersections c5_args" by (simp add: c5_args_def)
  have perm: "mset (id (work_items False (length (in_idx c5_args))))
                = mset (work_items False (length (in_idx c5_args)))"
    by simp
  have B: "0 < length (in_idx c5_args)" by (simp add: c5_args_def)
  have k: "3 < length (cpu_data c5_canvas)" by (simp add: c5_canvas_def)
  have cov: "iter_covers c5_images c5_args (cpu_shape c5_canvas) 0 3" by code_simp
  have n1: "\<not> iter_covers c5_images c5_args (cpu_shape c5_canvas) 1 3" by code_simp
  have n2: "\<not> iter_covers c5_images c5_args (cpu_shape c5_canvas) 2 3" by code_simp
  have last: "\<forall>C. 0 < C \<and> C < length (in_idx c5_args) \<longrightarrow>
                \<not> iter_covers c5_images c5_args (cpu_shape c5_canvas) C 3"
  proof (intro allI impI)
    fix C assume "0 < C \<and> C < length (in_idx c5_args)"
    moreover have "length (in_idx c5_args) = 3" by (simp add: c5_args_def)
    ultimately have "C = 1 \<or> C = 2" by presburger
    with n1 n2 show "\<not> iter_covers c5_images c5_args (cpu_shape c5_canvas) C 3" by blast
  qed
  have v: "cpu_data c5_result ! 3 = 12" by (simp add: c5_result_def)
  from last_covering_paste_wins[where dispatch = id, OF run seq perm B k cov last] run cov n1 n2 v
  show ?thesis by simp
qed

text \<open>
  The claim as stated, for any two overlapping iterations \<open>A\<close> before \<open>B\<close>, fails when a
  third iteration after \<open>B\<close> covers the same pixel: with three pastes onto pixel (0, 0),
  from sources holding 10, 20 and 30, the final value is 30, not the 20 of the second.
\<close>

theorem earlier_of_three_pastes_is_overwritten:
  "RunImpl_sample word_of_int id c5_images c5_args c5_canvas = Inr c5_result
   \<and> \<not> no_intersections c5_args
   \<and> iter_covers c5_images c5_args (cpu_shape c5_canvas) 0 0
   \<and> iter_covers c5_images c5_args (cpu_shape c5_canvas) 1 0
   \<and> rects_overlap (GetOutAnchors c5_args 0) (iter_shape c5_images c5_args 0)
        (GetOutAnchors c5_args 1) (iter_shape c5_images c5_args 1)
   \<and> iter_value word_of_int c5_images c5_args (cpu_shape c5_canvas) 1 0 = (20 :: 8 word)
   \<and> cpu_data c5_result ! 0 = 30
   \<and> cpu_data c5_result ! 0 \<noteq> iter_value word_of_int c5_images c5_args (cpu_shape c5_canvas) 1 0"
proof -
  have run: "RunImpl_sample word_of_int id c5_images c5_args c5_canvas = Inr c5_result"
    by code_simp
  have seq: "\<not> no_intersections c5_args" by (simp add: c5_args_def)
  have c0: "iter_covers c5_images c5_args (cpu_shape c5_canvas) 0 0" by code_simp
  have c1: "iter_covers c5_images c5_args (cpu_shape c5_canvas) 1 0" by code_simp
  have ov: "rects_overlap (GetOutAnchors c5_args 0) (iter_shape c5_images c5_args 0)
        (GetOutAnchors c5_args 1) (iter_shape c5_images c5_args 1)"
    by code_simp
  have v1: "iter_value word_of_int c5_images c5_args (cpu_shape c5_canvas) 1 0 = (20 :: 8 word)"
    by code_simp
  have v: "cpu_data c5_result ! 0 = 30" by (simp add: c5_result_def)
  from run seq c0 c1 ov v1 v show ?thesis by simp
qed


section \<open>The background of an empty paste list\<close>

text \<open>
  Claim C3. \<open>memset\<close> is given the number of elements as its length in bytes. With
  elements of one byte the whole canvas becomes 0
  (\<open>memset_zero_single_byte_elements\<close>); with \<open>int32_t\<close> elements only the first quarter
  does. A 2 by 2 canvas of one channel that held 7 everywhere and has an empty paste list
  comes out as 0, 7, 7, 7.
\<close>

theorem RunImpl_leaves_wide_elements_unzeroed:
  "in_idx c3_args = []
   \<and> RunImpl_sample (word_of_int :: int \<Rightarrow> 32 word) id [] c3_args c3_canvas
       = Inr \<lparr>cpu_shape = (2, 2, 1), cpu_data = [0, 7, 7, 7]\<rparr>"
proof -
  have "RunImpl_sample (word_of_int :: int \<Rightarrow> 32 word) id [] c3_args c3_canvas
       = Inr \<lparr>cpu_shape = (2, 2, 1), cpu_data = [0, 7, 7, 7]\<rparr>"
    by code_simp
  then show ?thesis by (simp add: c3_args_def)
qed


section \<open>The output that SetupImpl declares\<close>

text \<open>
  Claim C10, amended. If the input element type and the resolved output type (the
  \<open>dtype\<close> argument when it is set, the input type otherwise) are both among \<open>uint8_t\<close>,
  \<open>int16_t\<close>, \<open>int32_t\<close> and \<open>float\<close>, \<open>SetupImpl\<close> declares one output whose sample \<open>i\<close> has
  the shape \<open>(output_size[i][0], output_size[i][1], C_i)\<close>, with \<open>C_i\<close> the channel count of
  input sample \<open>i\<close>, and whose element type is the resolved output type. Otherwise it
  fails.
\<close>

theorem SetupImpl_declares_output:
  "if type_switch_supported images_type
      \<and> type_switch_supported (if dtype \<noteq> DALI_NO_TYPE then dtype else images_type)
   then \<exists>shapes. SetupImpl dtype output_size images_type images_shape
           = Inr [\<lparr>desc_shape = shapes,
                   desc_type = (if dtype \<noteq> DALI_NO_TYPE then dtype else images_type)\<rparr>]
         \<and> length shapes = length images_shape
         \<and> (\<forall>i<length images_shape.
               shapes ! i = (output_size i 0, output_size i 1, ext2 (images_shape ! i)))
   else isl (SetupImpl dtype output_size images_type images_shape)"
  using setup_shapes_nth[of output_size 0 images_shape]
  by (auto simp: SetupImpl_def AcquireArguments_def Let_def)

theorem SetupImpl_declares_output_witness:
  "type_switch_supported DALI_UINT8 \<and> type_switch_supported DALI_FLOAT
   \<and> SetupImpl DALI_FLOAT c10_output_size DALI_UINT8 [(4, 4, 3), (2, 5, 1)]
       = Inr [\<lparr>desc_shape = [(8, 6, 3), (8, 6, 1)], desc_type = DALI_FLOAT\<rparr>]
   \<and> SetupImpl DALI_NO_TYPE c10_output_size DALI_INT16 [(4, 4, 3)]
       = Inr [\<lparr>desc_shape = [(8, 6, 3)], desc_type = DALI_INT16\<rparr>]"
proof -
  have s: "type_switch_supported DALI_UINT8" "type_switch_supported DALI_FLOAT"
    "type_switch_supported DALI_INT16"
    by (simp_all add: type_switch_supported_def)
  have r1: "SetupImpl DALI_FLOAT c10_output_size DALI_UINT8 [(4, 4, 3), (2, 5, 1)]
       = Inr [\<lparr>desc_shape = [(8, 6, 3), (8, 6, 1)], desc_type = DALI_FLOAT\<rparr>]"
    by code_simp
  from SetupImpl_declares_output[of DALI_INT16 DALI_NO_TYPE c10_output_size "[(4, 4, 3)]"] s(3)
  obtain shapes where sh: "SetupImpl DALI_NO_TYPE c10_output_size DALI_INT16 [(4, 4, 3)]
           = Inr [\<lparr>desc_shape = shapes, desc_type = DALI_INT16\<rparr>]"
    and "length shapes = 1" and "shapes ! 0 = (c10_output_size 0 0, c10_output_size 0 1, ext2 (4, 4, 3))"
    by auto
  then have "shapes = [(8, 6, 3)]"
    by (cases shapes) (simp_all add: c10_output_size_def ext2_def)
  with sh s r1 show ?thesis by simp
qed

text \<open>
  The claim as stated, for every batch, fails on a \<open>dtype\<close> outside the list: with
  \<open>dtype = DALI_FLOAT64\<close> nothing is declared.
\<close>

theorem SetupImpl_rejects_float64:
  "SetupImpl DALI_FLOAT64 c10_output_size DALI_UINT8 [(4, 4, 3)] = Inl UnsupportedOutputType
   \<and> SetupImpl DALI_FLOAT64 c10_output_size DALI_UINT8 [(4, 4, 3)]
       \<noteq> Inr [\<lparr>desc_shape = [(8, 6, 3)], desc_type = DALI_FLOAT64\<rparr>]"
  by (simp add: SetupImpl_def AcquireArguments_def type_switch_supported_def)


end
